theory Spec2Isabelle
  imports Complex_Main
begin

section \<open>DocuRAG: a shallow embedding of the request handlers\<close>

text \<open>
  The handlers of the application (query, upload, document listing and deletion, the
  processing webhook) and the helpers they call (the rate-limit check, the confidence
  label, the lexical hallucination heuristic) are translated function by function.

  Conventions of the embedding:
  \<^item> a JavaScript string is a \<open>string\<close> over the ASCII alphabet; \<open>toLowerCase\<close> folds the
    letters A to Z, and \<open>trim\<close> strips the ASCII white space;
  \<^item> a JavaScript number is a \<open>number\<close>: a finite IEEE 754 double given by an integer
    mantissa and a binary exponent, an infinity, or NaN; addition and division round to
    the nearest double, ties to the even mantissa (the sign of zero is not kept);
  \<^item> a call to an external service (identity provider, rate-limit cache, embedding API,
    vector store, language model, object store) is a field of the environment record
    \<open>env\<close> that gives the call's outcome, \<open>Inl\<close> for a thrown error;
  \<^item> the relational store is the tables of the \<open>world\<close> record, configured and
    reachable; a row id is a string, and whether the database accepts a string where a
    \<open>uuid\<close> column is compared is the field \<open>accepts_uuid\<close> of the environment: a
    statement that compares such a column with a string the database does not accept
    throws;
  \<^item> every call to the embedding API, the vector store, the language model, the object
    store and the worker, and every relational write, is appended to the world's
    \<open>trace\<close>, in the order the handler performs them;
  \<^item> a handler returns its HTTP response together with the world it leaves behind.
\<close>

subsection \<open>Strings\<close>

definition isDigit :: "char \<Rightarrow> bool" where
  "isDigit c = (c \<in> set ''0123456789'')"

definition isSpace :: "char \<Rightarrow> bool" where
  "isSpace c = (c \<in> set [CHR '' '', CHR 0x09, CHR 0x0A, CHR 0x0B, CHR 0x0C, CHR 0x0D])"

definition toLowerChar :: "char \<Rightarrow> char" where
  "toLowerChar c =
     (case map_of (zip ''ABCDEFGHIJKLMNOPQRSTUVWXYZ'' ''abcdefghijklmnopqrstuvwxyz'') c of
        None \<Rightarrow> c
      | Some d \<Rightarrow> d)"

definition toLowerCase :: "string \<Rightarrow> string" where
  "toLowerCase s = map toLowerChar s"

definition trim :: "string \<Rightarrow> string" where
  "trim s = rev (dropWhile isSpace (rev (dropWhile isSpace s)))"

fun startsWith :: "string \<Rightarrow> string \<Rightarrow> bool" where
  "startsWith s [] = True"
| "startsWith [] (c # t) = False"
| "startsWith (x # s) (c # t) = (x = c \<and> startsWith s t)"

text \<open>\<open>includes_str s t\<close> is \<open>s.includes(t)\<close>: \<open>t\<close> occurs in \<open>s\<close> as a contiguous run.\<close>

fun includes_str :: "string \<Rightarrow> string \<Rightarrow> bool" where
  "includes_str [] t = (t = [])"
| "includes_str (x # s) t = (startsWith (x # s) t \<or> includes_str s t)"

definition newline :: string where
  "newline = [CHR 0x0A]"

text \<open>\<open>join sep xs\<close> is \<open>xs.join(sep)\<close>.\<close>

fun join :: "string \<Rightarrow> string list \<Rightarrow> string" where
  "join sep [] = []"
| "join sep [x] = x"
| "join sep (x # y # ys) = x @ sep @ join sep (y # ys)"

text \<open>\<open>split_on c s\<close> is \<open>s.split(c)\<close> for a one-character separator.\<close>

fun split_on :: "char \<Rightarrow> string \<Rightarrow> string list" where
  "split_on c [] = [] # []"
| "split_on c (x # s) =
     (if x = c then [] # split_on c s
      else (case split_on c s of
              [] \<Rightarrow> [x] # []
            | w # ws \<Rightarrow> (x # w) # ws))"

subsection \<open>JavaScript numbers\<close>

text \<open>
  \<open>Fin m e\<close> is the double \<open>m * 2 ^ e\<close>. The results of the operations are in normal
  form: zero is \<open>Fin 0 0\<close>, a subnormal has the exponent \<open>- 1074\<close>, and any other finite
  double has a mantissa of exactly 53 bits.
\<close>

datatype number = Fin int int | PosInf | NegInf | NaN

function bit_length :: "int \<Rightarrow> nat" where
  "bit_length k = (if k \<le> 0 then 0 else Suc (bit_length (k div 2)))"
  by pat_completeness auto
termination
  by (relation "measure nat") auto

declare bit_length.simps [simp del]

definition shift :: "int \<Rightarrow> int \<Rightarrow> int" where
  "shift m s = m * 2 ^ nat s"

text \<open>The integer nearest to \<open>p / q\<close>, the even one of two that are equally near.\<close>

definition round_half_even :: "int \<Rightarrow> int \<Rightarrow> int" where
  "round_half_even p q =
     (let m = p div q;
          r = p mod q
      in if 2 * r > q \<or> (2 * r = q \<and> odd m) then m + 1 else m)"

text \<open>
  The double nearest to \<open>(p / q) * 2 ^ e\<close> for positive \<open>p\<close> and \<open>q\<close>, as mantissa and
  exponent, before the range check. \<open>l\<close> is the binary logarithm of \<open>p / q\<close>, rounded down;
  \<open>ulp\<close> is the exponent of the last of the 53 places, not below that of the subnormals.
\<close>

definition round_scaled :: "int \<Rightarrow> int \<Rightarrow> int \<Rightarrow> int \<times> int" where
  "round_scaled p q e =
     (let t = int (bit_length p) - int (bit_length q);
          l = (if (if t \<ge> 0 then shift q t \<le> p else q \<le> shift p (- t)) then t else t - 1);
          ulp = max (l + e - 52) (- 1074);
          s = e - ulp;
          m = (if s \<ge> 0 then round_half_even (shift p s) q
               else round_half_even p (shift q (- s)))
      in if m = 2 ^ 53 then (2 ^ 52, ulp + 1) else (m, ulp))"

text \<open>
  The same for any sign of \<open>p\<close>, with the range check: a magnitude of \<open>2 ^ 1024\<close> or more
  is an infinity.
\<close>

definition round_number :: "int \<Rightarrow> int \<Rightarrow> int \<Rightarrow> number" where
  "round_number p q e =
     (if p = 0 then Fin 0 0
      else
        (let (m, ulp) = round_scaled \<bar>p\<bar> q e in
         if ulp \<ge> 972 then (if p < 0 then NegInf else PosInf)
         else if m = 0 then Fin 0 0
         else Fin (if p < 0 then - m else m) ulp))"

text \<open>The value of the decimal literal \<open>p / q\<close>: \<open>0.85\<close> is \<open>decimal 85 100\<close>.\<close>

definition decimal :: "int \<Rightarrow> int \<Rightarrow> number" where
  "decimal p q = round_number p q 0"

text \<open>An array length as a number.\<close>

definition number_of_nat :: "nat \<Rightarrow> number" where
  "number_of_nat n = round_number (int n) 1 0"

text \<open>\<open>x + y\<close>.\<close>

fun number_add :: "number \<Rightarrow> number \<Rightarrow> number" where
  "number_add (Fin a i) (Fin b j) =
     (let e = min i j in round_number (shift a (i - e) + shift b (j - e)) 1 e)"
| "number_add NaN y = NaN"
| "number_add x NaN = NaN"
| "number_add PosInf NegInf = NaN"
| "number_add NegInf PosInf = NaN"
| "number_add PosInf y = PosInf"
| "number_add NegInf y = NegInf"
| "number_add x PosInf = PosInf"
| "number_add x NegInf = NegInf"

text \<open>\<open>x / y\<close>.\<close>

fun number_div :: "number \<Rightarrow> number \<Rightarrow> number" where
  "number_div (Fin a i) (Fin b j) =
     (if b = 0 then (if a = 0 then NaN else if a > 0 then PosInf else NegInf)
      else if b > 0 then round_number a b (i - j)
      else round_number (- a) (- b) (i - j))"
| "number_div NaN y = NaN"
| "number_div x NaN = NaN"
| "number_div (Fin a i) y = Fin 0 0"
| "number_div PosInf (Fin b j) = (if b < 0 then NegInf else PosInf)"
| "number_div NegInf (Fin b j) = (if b < 0 then PosInf else NegInf)"
| "number_div x y = NaN"

text \<open>\<open>x >= y\<close>.\<close>

fun number_ge :: "number \<Rightarrow> number \<Rightarrow> bool" where
  "number_ge (Fin a i) (Fin b j) = (let e = min i j in shift b (j - e) \<le> shift a (i - e))"
| "number_ge NaN y = False"
| "number_ge x NaN = False"
| "number_ge PosInf y = True"
| "number_ge x NegInf = True"
| "number_ge x y = False"

subsection \<open>lib/utils.ts: the confidence label\<close>

datatype confidence = High | Medium | Low

definition getConfidenceLevel :: "number \<Rightarrow> confidence" where
  "getConfidenceLevel score =
     (if number_ge score (decimal 85 100) then High
      else if number_ge score (decimal 7 10) then Medium
      else Low)"

definition confidence_label :: "confidence \<Rightarrow> string" where
  "confidence_label c = (case c of High \<Rightarrow> ''High'' | Medium \<Rightarrow> ''Medium'' | Low \<Rightarrow> ''Low'')"

subsection \<open>lib/llm.ts: the hallucination heuristic\<close>

text \<open>
  The regular expression \<open>/\d+(\.\d+)?(%|percent|million|billion|thousand)?/gi\<close>.
  Both groups are optional and greedy and nothing follows them, so a match at a position
  is: the longest run of digits there (at least one), then a dot with the longest run of
  digits after it when there is at least one, then the first of the five alternatives
  that the text continues with, letters compared without case.
\<close>

definition magnitudes :: "string list" where
  "magnitudes = [''%'', ''percent'', ''million'', ''billion'', ''thousand'']"

definition matchFraction :: "string \<Rightarrow> string" where
  "matchFraction s =
     (case s of
        [] \<Rightarrow> []
      | c # r \<Rightarrow> if c = CHR ''.'' \<and> takeWhile isDigit r \<noteq> [] then c # takeWhile isDigit r else [])"

definition matchMagnitude :: "string \<Rightarrow> string" where
  "matchMagnitude s =
     (case filter (\<lambda>m. startsWith (toLowerCase s) m) magnitudes of
        [] \<Rightarrow> []
      | m # _ \<Rightarrow> take (length m) s)"

definition matchNumberAt :: "string \<Rightarrow> string option" where
  "matchNumberAt s =
     (let ds = takeWhile isDigit s in
      if ds = [] then None
      else
        let r1 = drop (length ds) s;
            frac = matchFraction r1;
            r2 = drop (length frac) r1
        in Some (ds @ frac @ matchMagnitude r2))"

text \<open>
  \<open>answer.match(re)\<close> with the global flag: all matches from left to right, the search
  resuming where the last match ended (one character further after an empty match).
\<close>

function matchAll :: "string \<Rightarrow> string list" where
  "matchAll s =
     (if s = [] then []
      else (case matchNumberAt s of
              None \<Rightarrow> matchAll (tl s)
            | Some tok \<Rightarrow> tok # matchAll (drop (max 1 (length tok)) s)))"
  by pat_completeness auto
termination
  by (relation "measure length") auto

declare matchAll.simps [simp del]

record context_item =
  content :: string

definition strongAssertions :: "string list" where
  "strongAssertions = [''always'', ''never'', ''exactly'', ''precisely'', ''definitely'']"

text \<open>The two \<open>for\<close> loops, each leaving with \<open>true\<close> at the first element that fires.\<close>

fun numbers_loop :: "string list \<Rightarrow> string \<Rightarrow> bool" where
  "numbers_loop [] contextText = False"
| "numbers_loop (num # nums) contextText =
     (if \<not> includes_str contextText (toLowerCase num) then True
      else numbers_loop nums contextText)"

fun assertions_loop :: "string list \<Rightarrow> string \<Rightarrow> string \<Rightarrow> bool" where
  "assertions_loop [] answerLower contextText = False"
| "assertions_loop (assertion # rest) answerLower contextText =
     (if includes_str answerLower assertion \<and> \<not> includes_str contextText assertion then True
      else assertions_loop rest answerLower contextText)"

definition contextTextOf :: "context_item list \<Rightarrow> string" where
  "contextTextOf contexts = join '' '' (map (\<lambda>c. toLowerCase (content c)) contexts)"

definition detectPotentialHallucination :: "string \<Rightarrow> context_item list \<Rightarrow> bool" where
  "detectPotentialHallucination answer contexts =
     (let answerLower = toLowerCase answer;
          contextText = contextTextOf contexts;
          numbers = matchAll answer
      in if numbers_loop numbers contextText then True
         else if assertions_loop strongAssertions answerLower contextText then True
         else False)"

subsection \<open>db/schema.ts: the relational tables\<close>

text \<open>
  One record per table, one field per column; a nullable column is an \<open>option\<close>. The
  \<open>jsonb\<close> metadata columns, which no handler reads or writes, are left out. Timestamps
  are milliseconds.
\<close>

type_synonym uuid = string

record user_row =
  u_id :: uuid
  u_clerkId :: string
  u_email :: string
  u_name :: "string option"
  u_imageUrl :: "string option"
  u_createdAt :: int
  u_updatedAt :: int

record document_row =
  d_id :: uuid
  d_userId :: uuid
  d_fileName :: string
  d_fileSize :: int
  d_mimeType :: string
  d_storageUrl :: string
  d_status :: string
  d_chunkCount :: "int option"
  d_errorMessage :: "string option"
  d_createdAt :: int
  d_updatedAt :: int

record chunk_row =
  c_id :: uuid
  c_documentId :: uuid
  c_content :: string
  c_chunkIndex :: int
  c_pageNumber :: "int option"
  c_vectorId :: "string option"
  c_createdAt :: int

record QuerySource =
  docId :: string
  chunkId :: string
  src_score :: number
  src_page :: "int option"
  src_text :: string
  fileName :: "string option"

record query_row =
  q_id :: uuid
  q_userId :: uuid
  q_query :: string
  q_answer :: "string option"
  q_sources :: "QuerySource list option"
  q_confidence :: "confidence option"
  q_tokenCount :: "int option"
  q_latencyMs :: "int option"
  q_documentIds :: "string list option"
  q_createdAt :: int

record document_collection_row =
  dc_id :: uuid
  dc_documentId :: uuid
  dc_collectionId :: uuid

subsection \<open>The world a handler runs in\<close>

datatype effect =
    EmbeddingCall string
  | VectorSearchCall uuid "string list option"
  | GenerateCall string
  | StorageUploadCall uuid string
  | StorageDeleteCall string
  | VectorDeleteCall uuid uuid
  | WorkerCall uuid
  | DbInsert string
  | DbUpdate string
  | DbDelete string

record world =
  users :: "user_row list"
  documents :: "document_row list"
  chunks :: "chunk_row list"
  documentCollections :: "document_collection_row list"
  queries :: "query_row list"
  trace :: "effect list"

definition log_effect :: "effect \<Rightarrow> world \<Rightarrow> world" where
  "log_effect ev w = w\<lparr>trace := trace w @ [ev]\<rparr>"

subsection \<open>Responses\<close>

datatype json =
    JNull
  | JBool bool
  | JNum int
  | JStr string
  | JArr "json list"
  | JObj "(string \<times> json) list"

datatype resp_body = Text string | Json json | Stream "string list"

record response =
  status :: nat
  body :: resp_body

definition json_response :: "nat \<Rightarrow> (string \<times> json) list \<Rightarrow> response" where
  "json_response code props = \<lparr>status = code, body = Json (JObj props)\<rparr>"

text \<open>A property whose value is \<open>undefined\<close> is absent from the serialised object.\<close>

definition opt_num :: "string \<Rightarrow> int option \<Rightarrow> (string \<times> json) list" where
  "opt_num k v = (case v of None \<Rightarrow> [] | Some n \<Rightarrow> [(k, JNum n)])"

definition nullable_num :: "int option \<Rightarrow> json" where
  "nullable_num v = (case v of None \<Rightarrow> JNull | Some n \<Rightarrow> JNum n)"

definition nullable_str :: "string option \<Rightarrow> json" where
  "nullable_str v = (case v of None \<Rightarrow> JNull | Some s \<Rightarrow> JStr s)"

subsection \<open>The environment: outcomes of the external calls\<close>

datatype error = Error string

record Ratelimit =
  tokens :: nat
  window :: string
  prefix :: string

record limiter_response =
  lr_success :: bool
  lr_limit :: int
  lr_remaining :: int
  lr_reset :: int

record search_payload =
  doc_id :: string
  chunk_id :: string
  pl_content :: string
  pl_page :: "int option"
  chunk_index :: int

record search_result =
  sr_id :: string
  score :: number
  payload :: search_payload

record rag_context =
  ctx_content :: string
  ctx_page :: "int option"
  ctx_docId :: string
  ctx_score :: number

record upload_file =
  f_name :: string
  f_size :: int
  f_type :: string

record clerk_user =
  emailAddresses :: "string list"
  firstName :: "string option"
  lastName :: "string option"
  cu_imageUrl :: "string option"

record env =
  auth :: "string option"
  currentUser :: "clerk_user option"
  redis :: bool
  limiter_limit :: "Ratelimit \<Rightarrow> string \<Rightarrow> error + limiter_response"
  generateQueryEmbedding :: "string \<Rightarrow> error + number list"
  searchVectors :: "uuid \<Rightarrow> number list \<Rightarrow> string list option \<Rightarrow> error + search_result list"
  generateRAGResponse :: "string \<Rightarrow> rag_context list \<Rightarrow> error + string \<times> int"
  uploadDocument :: "upload_file \<Rightarrow> uuid \<Rightarrow> error + string"
  deleteDocument :: "string \<Rightarrow> error + unit"
  deleteDocumentVectors :: "uuid \<Rightarrow> uuid \<Rightarrow> error + unit"
  WORKER_URL :: "string option"
  WORKER_SECRET :: "string option"
  startTime :: int
  now :: int
  newUserId :: uuid
  newDocumentId :: uuid
  newQueryId :: uuid
  stringify_sources :: "QuerySource list \<Rightarrow> string"
  toISOString :: "int \<Rightarrow> string"
  irregular_page :: "error + nat \<times> nat"
  accepts_uuid :: "string \<Rightarrow> bool"

subsection \<open>lib/rate-limit.ts\<close>

datatype operation = upload | query

definition uploadRateLimiter :: "env \<Rightarrow> Ratelimit option" where
  "uploadRateLimiter e =
     (if redis e then Some \<lparr>tokens = 10, window = ''1 h'', prefix = ''ratelimit:upload''\<rparr>
      else None)"

definition queryRateLimiter :: "env \<Rightarrow> Ratelimit option" where
  "queryRateLimiter e =
     (if redis e then Some \<lparr>tokens = 100, window = ''1 h'', prefix = ''ratelimit:query''\<rparr>
      else None)"

record rate_limit_result =
  success :: bool
  limit :: "int option"
  remaining :: "int option"
  reset :: "int option"

definition checkRateLimit :: "env \<Rightarrow> string \<Rightarrow> operation \<Rightarrow> rate_limit_result" where
  "checkRateLimit e userId type =
     (let limiter = (if type = upload then uploadRateLimiter e else queryRateLimiter e) in
      case limiter of
        None \<Rightarrow> \<lparr>success = True, limit = None, remaining = None, reset = None\<rparr>
      | Some l \<Rightarrow>
          (case limiter_limit e l userId of
             Inr r \<Rightarrow> \<lparr>success = lr_success r, limit = Some (lr_limit r),
                      remaining = Some (lr_remaining r), reset = Some (lr_reset r)\<rparr>
           | Inl err \<Rightarrow> \<lparr>success = True, limit = None, remaining = None, reset = None\<rparr>))"

definition find_user :: "string \<Rightarrow> world \<Rightarrow> user_row option" where
  "find_user clerkId w = find (\<lambda>u. u_clerkId u = clerkId) (users w)"

subsection \<open>app/api/query/route.ts\<close>

text \<open>
  The parsed JSON body. \<open>req_query\<close> is \<open>None\<close> when the property is absent or is not a
  string: the guard \<open>!query || typeof query !== 'string'\<close> rejects both alike.
\<close>

record query_request =
  req_query :: "string option"
  req_documentIds :: "string list option"

definition noResultsAnswer :: string where
  "noResultsAnswer = ''I couldn't find any relevant information in your documents to answer this question. Please try rephrasing your question or upload more relevant documents.''"

definition query_error :: response where
  "query_error =
     json_response 500 [(''error'', JStr ''An error occurred while processing your query.'')]"

text \<open>
  The stream is the list of the chunks the timer enqueues, in order: one chunk per word
  of the answer, then the two marker chunks. The 30 ms cadence is not modelled.
\<close>

definition query_no_results ::
  "env \<Rightarrow> query_request \<Rightarrow> user_row \<Rightarrow> string \<Rightarrow> world \<Rightarrow> response \<times> world" where
  "query_no_results e req user q w =
     (let row = \<lparr>q_id = newQueryId e,
                 q_userId = u_id user,
                 q_query = trim q,
                 q_answer = Some noResultsAnswer,
                 q_sources = Some [],
                 q_confidence = Some Low,
                 q_tokenCount = Some 0,
                 q_latencyMs = Some (now e - startTime e),
                 q_documentIds = Some (case req_documentIds req of None \<Rightarrow> [] | Some ids \<Rightarrow> ids),
                 q_createdAt = now e\<rparr>;
          w1 = log_effect (DbInsert ''queries'') (w\<lparr>queries := queries w @ [row]\<rparr>);
          words = split_on (CHR '' '') noResultsAnswer
      in (\<lparr>status = 200,
           body = Stream (map (\<lambda>x. x @ '' '') words
                          @ [newline @ newline @ ''__SOURCES__:[]'' @ newline,
                             ''__CONFIDENCE__:Low'' @ newline])\<rparr>,
          w1))"

text \<open>
  The branch with results. The select of the file names compares the \<open>uuid\<close> column
  \<open>documents.id\<close> with the document ids of the payloads and throws when the database does
  not accept one of them.
\<close>

definition query_with_results ::
  "env \<Rightarrow> query_request \<Rightarrow> user_row \<Rightarrow> string \<Rightarrow> search_result list \<Rightarrow> world
     \<Rightarrow> response \<times> world" where
  "query_with_results e req user q searchResults w =
     (let docIds = remdups (map (\<lambda>r. doc_id (payload r)) searchResults);
          docInfoList = filter (\<lambda>d. d_id d \<in> set docIds) (documents w);
          docNameMap = map_of (rev (map (\<lambda>d. (d_id d, d_fileName d)) docInfoList));
          contexts = map (\<lambda>result. \<lparr>ctx_content = pl_content (payload result),
                                     ctx_page = pl_page (payload result),
                                     ctx_docId = doc_id (payload result),
                                     ctx_score = score result\<rparr>) searchResults;
          w1 = log_effect (GenerateCall (trim q)) w
      in if \<not> list_all (accepts_uuid e) docIds then (query_error, w)
         else
         case generateRAGResponse e (trim q) contexts of
           Inl err \<Rightarrow> (query_error, w1)
         | Inr (answer, tokenCount) \<Rightarrow>
             (let avgScore = number_div
                               (foldl (\<lambda>sum r. number_add sum (score r)) (Fin 0 0) searchResults)
                               (number_of_nat (length searchResults));
                  hasHallucination =
                    detectPotentialHallucination answer
                      (map (\<lambda>c. \<lparr>content = ctx_content c\<rparr>) contexts);
                  confidence = (if hasHallucination then Low else getConfidenceLevel avgScore);
                  sources = map (\<lambda>result. \<lparr>docId = doc_id (payload result),
                                            chunkId = chunk_id (payload result),
                                            src_score = score result,
                                            src_page = pl_page (payload result),
                                            src_text = take 300 (pl_content (payload result)),
                                            fileName = docNameMap (doc_id (payload result))\<rparr>)
                              searchResults;
                  latencyMs = now e - startTime e;
                  row = \<lparr>q_id = newQueryId e,
                         q_userId = u_id user,
                         q_query = trim q,
                         q_answer = Some answer,
                         q_sources = Some sources,
                         q_confidence = Some confidence,
                         q_tokenCount = Some tokenCount,
                         q_latencyMs = Some latencyMs,
                         q_documentIds =
                           Some (case req_documentIds req of None \<Rightarrow> [] | Some ids \<Rightarrow> ids),
                         q_createdAt = now e\<rparr>;
                  w2 = log_effect (DbInsert ''queries'') (w1\<lparr>queries := queries w1 @ [row]\<rparr>);
                  words = split_on (CHR '' '') answer
              in (\<lparr>status = 200,
                   body = Stream (map (\<lambda>x. x @ '' '') words
                                  @ [newline @ newline @ ''__SOURCES__:''
                                       @ stringify_sources e sources @ newline,
                                     ''__CONFIDENCE__:'' @ confidence_label confidence
                                       @ newline])\<rparr>,
                  w2)))"

definition query_search ::
  "env \<Rightarrow> query_request \<Rightarrow> user_row \<Rightarrow> string \<Rightarrow> world \<Rightarrow> response \<times> world" where
  "query_search e req user q w =
     (let w1 = log_effect (EmbeddingCall (trim q)) w in
      case generateQueryEmbedding e (trim q) of
        Inl err \<Rightarrow> (query_error, w1)
      | Inr queryEmbedding \<Rightarrow>
          (let documentIds = (case req_documentIds req of
                                None \<Rightarrow> None
                              | Some ids \<Rightarrow> if length ids > 0 then Some ids else None);
               w2 = log_effect (VectorSearchCall (u_id user) documentIds) w1
           in case searchVectors e (u_id user) queryEmbedding documentIds of
                Inl err \<Rightarrow> (query_error, w2)
              | Inr searchResults \<Rightarrow>
                  if length searchResults = 0 then query_no_results e req user q w2
                  else query_with_results e req user q searchResults w2))"

text \<open>\<open>request_json\<close> is the outcome of \<open>request.json()\<close>, which throws on a malformed body.\<close>

definition POST_query ::
  "env \<Rightarrow> error + query_request \<Rightarrow> world \<Rightarrow> response \<times> world" where
  "POST_query e request_json w =
     (case auth e of
        None \<Rightarrow> (\<lparr>status = 401, body = Text ''Unauthorized''\<rparr>, w)
      | Some clerkId \<Rightarrow>
          (let rateLimitResult = checkRateLimit e clerkId query in
           if \<not> success rateLimitResult then
             (json_response 429
                ([(''error'', JStr ''Rate limit exceeded. Please try again later.'')]
                 @ opt_num ''remaining'' (remaining rateLimitResult)),
              w)
           else
             (case request_json of
                Inl err \<Rightarrow> (query_error, w)
              | Inr req \<Rightarrow>
                  (case req_query req of
                     None \<Rightarrow> (json_response 400 [(''error'', JStr ''Query is required'')], w)
                   | Some q \<Rightarrow>
                       if q = [] \<or> length (trim q) = 0 then
                         (json_response 400 [(''error'', JStr ''Query is required'')], w)
                       else
                         (case find_user clerkId w of
                            None \<Rightarrow> (json_response 404 [(''error'', JStr ''User not found'')], w)
                          | Some user \<Rightarrow> query_search e req user q w)))))"

subsection \<open>config/constants.ts\<close>

definition MAX_FILE_SIZE :: int where
  "MAX_FILE_SIZE = 50 * 1024 * 1024"

definition ALLOWED_FILE_TYPES :: "string list" where
  "ALLOWED_FILE_TYPES =
     [''application/pdf'',
      ''text/plain'',
      ''text/markdown'',
      ''application/msword'',
      ''application/vnd.openxmlformats-officedocument.wordprocessingml.document'']"

subsection \<open>The upload handler\<close>

definition upload_error :: response where
  "upload_error =
     json_response 500 [(''error'', JStr ''An error occurred while uploading the document.'')]"

text \<open>
  The storage write, the document row and the notification of the worker. The worker's
  answer, and a failure to reach it, are only logged by the source.
\<close>

definition upload_store :: "env \<Rightarrow> upload_file \<Rightarrow> user_row \<Rightarrow> world \<Rightarrow> response \<times> world" where
  "upload_store e file user w =
     (let w1 = log_effect (StorageUploadCall (u_id user) (f_name file)) w in
      case uploadDocument e file (u_id user) of
        Inl err \<Rightarrow> (upload_error, w1)
      | Inr storageUrl \<Rightarrow>
          (let doc = \<lparr>d_id = newDocumentId e,
                      d_userId = u_id user,
                      d_fileName = f_name file,
                      d_fileSize = f_size file,
                      d_mimeType = f_type file,
                      d_storageUrl = storageUrl,
                      d_status = ''processing'',
                      d_chunkCount = Some 0,
                      d_errorMessage = None,
                      d_createdAt = now e,
                      d_updatedAt = now e\<rparr>;
               w2 = log_effect (DbInsert ''documents'') (w1\<lparr>documents := documents w1 @ [doc]\<rparr>);
               w3 = (case WORKER_URL e of
                       None \<Rightarrow> w2
                     | Some url \<Rightarrow> if url = [] then w2 else log_effect (WorkerCall (d_id doc)) w2)
           in (json_response 200
                 [(''id'', JStr (d_id doc)),
                  (''status'', JStr (d_status doc)),
                  (''message'', JStr ''Document uploaded successfully and is being processed.'')],
               w3)))"

text \<open>Get or create the caller's user row.\<close>

definition upload_user :: "env \<Rightarrow> string \<Rightarrow> upload_file \<Rightarrow> world \<Rightarrow> response \<times> world" where
  "upload_user e clerkId file w =
     (case find_user clerkId w of
        Some user \<Rightarrow> upload_store e file user w
      | None \<Rightarrow>
          (let clerkUser = currentUser e;
               userEmail = (case clerkUser of
                              None \<Rightarrow> None
                            | Some cu \<Rightarrow> (case emailAddresses cu of [] \<Rightarrow> None | a # _ \<Rightarrow> Some a))
           in case userEmail of
                None \<Rightarrow>
                  (json_response 400
                     [(''error'',
                       JStr ''Unable to retrieve user email from authentication provider.'')],
                   w)
              | Some email \<Rightarrow>
                  if email = [] then
                    (json_response 400
                       [(''error'',
                         JStr ''Unable to retrieve user email from authentication provider.'')],
                     w)
                  else
                    (let user = \<lparr>u_id = newUserId e,
                                  u_clerkId = clerkId,
                                  u_email = email,
                                  u_name =
                                    (case clerkUser of
                                       None \<Rightarrow> None
                                     | Some cu \<Rightarrow>
                                         (case firstName cu of
                                            None \<Rightarrow> None
                                          | Some first \<Rightarrow>
                                              if first = [] then None
                                              else Some (first @ (case lastName cu of
                                                                 None \<Rightarrow> []
                                                               | Some surname \<Rightarrow>
                                                                   if surname = [] then []
                                                                   else '' '' @ surname)))),
                                  u_imageUrl =
                                    (case clerkUser of
                                       None \<Rightarrow> None
                                     | Some cu \<Rightarrow>
                                         (case cu_imageUrl cu of
                                            None \<Rightarrow> None
                                          | Some url \<Rightarrow> if url = [] then None else Some url)),
                                  u_createdAt = now e,
                                  u_updatedAt = now e\<rparr>;
                         w1 = log_effect (DbInsert ''users'') (w\<lparr>users := users w @ [user]\<rparr>)
                     in upload_store e file user w1)))"

text \<open>
  \<open>form_file\<close> is the outcome of reading the multipart form: an error when
  \<open>request.formData()\<close> throws, otherwise the \<open>file\<close> field, if any.
\<close>

definition POST_upload ::
  "env \<Rightarrow> error + upload_file option \<Rightarrow> world \<Rightarrow> response \<times> world" where
  "POST_upload e form_file w =
     (case auth e of
        None \<Rightarrow> (json_response 401 [(''error'', JStr ''Unauthorized'')], w)
      | Some clerkId \<Rightarrow>
          (let rateLimitResult = checkRateLimit e clerkId upload in
           if \<not> success rateLimitResult then
             (json_response 429
                ([(''error'', JStr ''Rate limit exceeded. Please try again later.'')]
                 @ opt_num ''remaining'' (remaining rateLimitResult)
                 @ opt_num ''reset'' (reset rateLimitResult)),
              w)
           else
             (case form_file of
                Inl err \<Rightarrow> (upload_error, w)
              | Inr None \<Rightarrow> (json_response 400 [(''error'', JStr ''No file provided'')], w)
              | Inr (Some file) \<Rightarrow>
                  if f_size file > MAX_FILE_SIZE then
                    (json_response 400
                       [(''error'', JStr ''File too large. Maximum size is 50MB.'')], w)
                  else if f_type file \<notin> set ALLOWED_FILE_TYPES then
                    (json_response 400
                       [(''error'',
                         JStr ''Invalid file type. Allowed types: PDF, TXT, MD, DOC, DOCX.'')],
                     w)
                  else upload_user e clerkId file w)))"

subsection \<open>app/api/documents/route.ts\<close>

definition digit_value :: "char \<Rightarrow> int" where
  "digit_value c = int (length (takeWhile (\<lambda>d. d \<noteq> c) ''0123456789''))"

text \<open>
  \<open>parseInt(s, 10)\<close>: leading white space, an optional sign, then the longest run of
  decimal digits; \<open>None\<close> is \<open>NaN\<close>. The result is an exact integer.
\<close>

definition parseInt :: "string \<Rightarrow> int option" where
  "parseInt s =
     (let s1 = dropWhile isSpace s;
          negative = (case s1 of [] \<Rightarrow> False | c # _ \<Rightarrow> c = CHR ''-'');
          s2 = (case s1 of
                  [] \<Rightarrow> []
                | c # r \<Rightarrow> if c = CHR ''-'' \<or> c = CHR ''+'' then r else s1);
          ds = takeWhile isDigit s2
      in if ds = [] then None
         else
           (let n = foldl (\<lambda>acc c. acc * 10 + digit_value c) 0 ds
            in Some (if negative then - n else n)))"

text \<open>\<open>searchParams.get(k) || d\<close>: the default also replaces an empty value.\<close>

definition param_or :: "string option \<Rightarrow> string \<Rightarrow> string" where
  "param_or v d = (case v of None \<Rightarrow> d | Some s \<Rightarrow> if s = [] then d else s)"

text \<open>
  The select of the listing: the caller's rows, newest first, then the window that
  \<open>LIMIT\<close> and \<open>OFFSET\<close> cut. The source passes whatever \<open>parseInt\<close> gave; for a limit
  or offset that is negative or not a number the outcome is what the ORM and the
  database make of it, an error or some other window of the ordered rows, and is taken
  from the environment.
\<close>

definition select_documents_page ::
  "env \<Rightarrow> uuid \<Rightarrow> int option \<Rightarrow> int option \<Rightarrow> document_row list \<Rightarrow> error + document_row list"
  where
  "select_documents_page e userId lmt offset rows =
     (let ordered = rev (sort_key d_createdAt (filter (\<lambda>d. d_userId d = userId) rows));
          regular = (case (lmt, offset) of
                       (Some l, Some off) \<Rightarrow> if 0 \<le> l \<and> 0 \<le> off then Some (l, off) else None
                     | _ \<Rightarrow> None)
      in case regular of
           Some (l, off) \<Rightarrow> Inr (take (nat l) (drop (nat off) ordered))
         | None \<Rightarrow>
             (case irregular_page e of
                Inl err \<Rightarrow> Inl err
              | Inr (skip, count) \<Rightarrow> Inr (take count (drop skip ordered))))"

definition format_document :: "env \<Rightarrow> document_row \<Rightarrow> json" where
  "format_document e doc =
     JObj [(''id'', JStr (d_id doc)),
           (''fileName'', JStr (d_fileName doc)),
           (''fileSize'', JNum (d_fileSize doc)),
           (''mimeType'', JStr (d_mimeType doc)),
           (''status'', JStr (d_status doc)),
           (''chunkCount'', nullable_num (d_chunkCount doc)),
           (''createdAt'', JStr (toISOString e (d_createdAt doc))),
           (''updatedAt'', JStr (toISOString e (d_updatedAt doc))),
           (''errorMessage'', nullable_str (d_errorMessage doc))]"

definition GET_documents ::
  "env \<Rightarrow> string option \<Rightarrow> string option \<Rightarrow> world \<Rightarrow> response \<times> world" where
  "GET_documents e page_param limit_param w =
     (case auth e of
        None \<Rightarrow> (json_response 401 [(''error'', JStr ''Unauthorized'')], w)
      | Some clerkId \<Rightarrow>
          (case find_user clerkId w of
             None \<Rightarrow> (json_response 200 [(''documents'', JArr [])], w)
           | Some user \<Rightarrow>
               (let page = parseInt (param_or page_param ''1'');
                    lmt = parseInt (param_or limit_param ''20'');
                    offset = (case (page, lmt) of
                                (Some p, Some l) \<Rightarrow> Some ((p - 1) * l)
                              | _ \<Rightarrow> None)
                in case select_documents_page e (u_id user) lmt offset (documents w) of
                     Inl err \<Rightarrow>
                       (json_response 500 [(''error'', JStr ''Failed to fetch documents'')], w)
                   | Inr docs \<Rightarrow>
                       (json_response 200
                          [(''documents'', JArr (map (format_document e) docs)),
                           (''page'', nullable_num page),
                           (''limit'', nullable_num lmt)],
                        w))))"



subsection \<open>app/api/process/route.ts\<close>

record process_body =
  document_id :: "string option"
  new_status :: "string option"
  chunk_count :: "int option"
  error_message :: "string option"

text \<open>Truthiness of an optional string: absent and empty are both falsy.\<close>

definition truthy :: "string option \<Rightarrow> bool" where
  "truthy v = (case v of None \<Rightarrow> False | Some s \<Rightarrow> s \<noteq> [])"

definition validStatuses :: "string list" where
  "validStatuses = [''processing'', ''ready'', ''failed'']"

record update_data =
  ud_status :: "string option"
  ud_chunkCount :: "int option"
  ud_errorMessage :: "string option"
  ud_updatedAt :: "int option"

text \<open>\<open>db.update(documents).set(updateData)\<close> on one row: the supplied columns only.\<close>

definition set_columns :: "update_data \<Rightarrow> document_row \<Rightarrow> document_row" where
  "set_columns u d =
     d\<lparr>d_status := (case ud_status u of None \<Rightarrow> d_status d | Some s \<Rightarrow> s),
       d_chunkCount := (case ud_chunkCount u of None \<Rightarrow> d_chunkCount d | Some n \<Rightarrow> Some n),
       d_errorMessage :=
         (case ud_errorMessage u of None \<Rightarrow> d_errorMessage d | Some m \<Rightarrow> Some m),
       d_updatedAt := (case ud_updatedAt u of None \<Rightarrow> d_updatedAt d | Some t \<Rightarrow> t)\<rparr>"

text \<open>
  The update throws, and the handler's \<open>catch\<close> answers 500, when the database does not
  accept \<open>document_id\<close> as a uuid or \<open>chunk_count\<close> is outside the 32-bit \<open>integer\<close>
  column.
\<close>

definition POST_process ::
  "env \<Rightarrow> string option \<Rightarrow> error + process_body \<Rightarrow> world \<Rightarrow> response \<times> world" where
  "POST_process e authHeader request_json w =
     (if truthy (WORKER_SECRET e) \<and> authHeader \<noteq> WORKER_SECRET e then
        (json_response 401 [(''error'', JStr ''Unauthorized'')], w)
      else
        (case request_json of
           Inl err \<Rightarrow>
             (json_response 500 [(''error'', JStr ''Failed to update document status'')], w)
         | Inr b \<Rightarrow>
             if \<not> truthy (document_id b) then
               (json_response 400 [(''error'', JStr ''document_id is required'')], w)
             else if truthy (new_status b)
                     \<and> (case new_status b of None \<Rightarrow> False | Some s \<Rightarrow> s \<notin> set validStatuses)
             then (json_response 400 [(''error'', JStr ''Invalid status'')], w)
             else if (case document_id b of None \<Rightarrow> False | Some i \<Rightarrow> \<not> accepts_uuid e i)
                     \<or> (case chunk_count b of
                           None \<Rightarrow> False
                         | Some n \<Rightarrow> n < - 2147483648 \<or> 2147483647 < n)
             then (json_response 500 [(''error'', JStr ''Failed to update document status'')], w)
             else
               (let updateData =
                      \<lparr>ud_status = (if truthy (new_status b) then new_status b else None),
                       ud_chunkCount = chunk_count b,
                       ud_errorMessage =
                         (if truthy (error_message b) then error_message b else None),
                       ud_updatedAt = Some (now e)\<rparr>;
                    w1 = log_effect (DbUpdate ''documents'')
                           (w\<lparr>documents :=
                                map (\<lambda>d. if Some (d_id d) = document_id b
                                          then set_columns updateData d else d)
                                    (documents w)\<rparr>)
                in (json_response 200
                      [(''success'', JBool True), (''message'', JStr ''Document status updated'')],
                    w1))))"

subsection \<open>Notions the properties are stated with\<close>

text \<open>
  The notions of the hallucination check, in the specification's words and independent of
  the detector's own helpers. A text occurs in another when it is a contiguous piece of
  it. Lowercasing maps the 26 capital letters, character codes 65 to 90, to the small
  letters 32 codes above and leaves every other character as it is. A token occurs
  case-insensitively in a text when its lowercased form occurs in the lowercased text.
\<close>

definition is_substring :: "string \<Rightarrow> string \<Rightarrow> bool" where
  "is_substring t s = (\<exists>p q. s = p @ t @ q)"

definition lower_of :: "char \<Rightarrow> char" where
  "lower_of c =
     (let n = (of_char c :: nat) in if 65 \<le> n \<and> n \<le> 90 then char_of (n + 32) else c)"

definition lowercased :: "string \<Rightarrow> string" where
  "lowercased s = map lower_of s"

definition occurs_ci :: "string \<Rightarrow> string \<Rightarrow> bool" where
  "occurs_ci tok txt = is_substring (lowercased tok) (lowercased txt)"

text \<open>
  A numeric token: a number (a non-empty run of decimal digits), optionally followed by a
  decimal part (a dot and a non-empty run of digits), optionally followed by \<open>%\<close>,
  \<open>percent\<close>, \<open>million\<close>, \<open>billion\<close> or \<open>thousand\<close> in any case.
\<close>

definition decimal_digit :: "char \<Rightarrow> bool" where
  "decimal_digit c = (48 \<le> (of_char c :: nat) \<and> (of_char c :: nat) \<le> 57)"

definition digits :: "string \<Rightarrow> bool" where
  "digits s = (s \<noteq> [] \<and> (\<forall>c \<in> set s. decimal_digit c))"

definition numeric_token :: "string \<Rightarrow> bool" where
  "numeric_token tok =
     (\<exists>whole frac suffix.
        tok = whole @ frac @ suffix
        \<and> digits whole
        \<and> (frac = [] \<or> (\<exists>ds. frac = CHR ''.'' # ds \<and> digits ds))
        \<and> (suffix = []
            \<or> lowercased suffix
                \<in> {''%'', ''percent'', ''million'', ''billion'', ''thousand''}))"

text \<open>
  The numeric tokens of a text, from left to right: a token starts at the first digit
  after the previous token, and is the longest numeric token that the text has there.
\<close>

definition longest_numeric_prefix :: "string \<Rightarrow> string \<Rightarrow> bool" where
  "longest_numeric_prefix s tok =
     (numeric_token tok \<and> (\<exists>r. s = tok @ r)
      \<and> (\<forall>t r. numeric_token t \<and> s = t @ r \<longrightarrow> length t \<le> length tok))"

inductive numeric_tokens :: "string \<Rightarrow> string list \<Rightarrow> bool" where
  no_digit: "\<forall>c \<in> set s. \<not> decimal_digit c \<Longrightarrow> numeric_tokens s []"
| token: "\<forall>c \<in> set gap. \<not> decimal_digit c \<Longrightarrow> longest_numeric_prefix (tok @ rest) tok
          \<Longrightarrow> numeric_tokens rest toks \<Longrightarrow> numeric_tokens (gap @ tok @ rest) (tok # toks)"

text \<open>The five words of absolute certainty.\<close>

definition certainty_words :: "string list" where
  "certainty_words = [''always'', ''never'', ''exactly'', ''precisely'', ''definitely'']"

text \<open>The concatenated context: the context strings, a space between one and the next.\<close>

definition concatenated_context :: "context_item list \<Rightarrow> string" where
  "concatenated_context contexts =
     (case contexts of
        [] \<Rightarrow> []
      | c # cs \<Rightarrow> content c @ concat (map (\<lambda>x. '' '' @ content x) cs))"

text \<open>
  The detector as the specification words it: it fires when some numeric token of the
  answer does not occur case-insensitively in the concatenated context, or one of the
  five words occurs in the lowercased answer and not in the lowercased concatenated
  context.
\<close>

definition spec_hallucination :: "string \<Rightarrow> context_item list \<Rightarrow> bool" where
  "spec_hallucination answer contexts =
     ((\<exists>toks. numeric_tokens answer toks
          \<and> (\<exists>tok \<in> set toks. \<not> occurs_ci tok (concatenated_context contexts)))
      \<or> (\<exists>w \<in> set certainty_words.
            is_substring w (lowercased answer)
            \<and> \<not> is_substring w (lowercased (concatenated_context contexts))))"









definition response_object :: "response \<Rightarrow> (string \<times> json) list" where
  "response_object r = (case body r of Json (JObj props) \<Rightarrow> props | _ \<Rightarrow> [])"

definition listed_documents :: "response \<Rightarrow> json list" where
  "listed_documents r =
     (case map_of (response_object r) ''documents'' of Some (JArr items) \<Rightarrow> items | _ \<Rightarrow> [])"

definition json_id :: "json \<Rightarrow> string option" where
  "json_id j =
     (case j of
        JObj props \<Rightarrow> (case map_of props ''id'' of Some (JStr s) \<Rightarrow> Some s | _ \<Rightarrow> None)
      | _ \<Rightarrow> None)"

text \<open>The email address the identity provider gives for the caller, if any.\<close>

definition provider_email :: "env \<Rightarrow> string option" where
  "provider_email e =
     (case currentUser e of
        None \<Rightarrow> None
      | Some cu \<Rightarrow>
          (case emailAddresses cu of [] \<Rightarrow> None | a # _ \<Rightarrow> if a = [] then None else Some a))"

text \<open>A document row with its \<open>updatedAt\<close> column blanked.\<close>

definition without_updatedAt :: "document_row \<Rightarrow> document_row" where
  "without_updatedAt d = d\<lparr>d_updatedAt := 0\<rparr>"

subsection \<open>A concrete deployment for the examples\<close>

text \<open>
  The database of the examples accepts a uuid in the standard form: groups of 8, 4, 4, 4
  and 12 hexadecimal digits, separated by hyphens.
\<close>

definition hex_digit :: "char \<Rightarrow> bool" where
  "hex_digit c = (c \<in> set ''0123456789abcdefABCDEF'')"

definition standard_uuid :: "string \<Rightarrow> bool" where
  "standard_uuid s =
     (map length (split_on (CHR ''-'') s) = [8, 4, 4, 4, 12]
      \<and> list_all (list_all hex_digit) (split_on (CHR ''-'') s))"

definition alice_id :: uuid where
  "alice_id = ''a11ce000-0000-4000-8000-000000000001''"

definition bob_id :: uuid where
  "bob_id = ''b0b00000-0000-4000-8000-000000000002''"

definition report_id :: uuid where
  "report_id = ''d0c00000-0000-4000-8000-000000000001''"

definition notes_id :: uuid where
  "notes_id = ''d0c00000-0000-4000-8000-000000000002''"

definition alice :: user_row where
  "alice = \<lparr>u_id = alice_id, u_clerkId = ''clerk_alice'', u_email = ''alice@example.com'',
            u_name = Some ''Alice'', u_imageUrl = None, u_createdAt = 10, u_updatedAt = 10\<rparr>"

definition bob :: user_row where
  "bob = \<lparr>u_id = bob_id, u_clerkId = ''clerk_bob'', u_email = ''bob@example.com'',
          u_name = None, u_imageUrl = None, u_createdAt = 20, u_updatedAt = 20\<rparr>"

definition report_doc :: document_row where
  "report_doc = \<lparr>d_id = report_id, d_userId = alice_id, d_fileName = ''report.pdf'',
                 d_fileSize = 2097152, d_mimeType = ''application/pdf'',
                 d_storageUrl = ''gs://bucket/a11ce000-0000-4000-8000-000000000001/30-report.pdf'', d_status = ''processing'',
                 d_chunkCount = Some 0, d_errorMessage = None,
                 d_createdAt = 30, d_updatedAt = 30\<rparr>"

definition notes_doc :: document_row where
  "notes_doc = \<lparr>d_id = notes_id, d_userId = bob_id, d_fileName = ''notes.txt'',
                d_fileSize = 512, d_mimeType = ''text/plain'',
                d_storageUrl = ''gs://bucket/b0b00000-0000-4000-8000-000000000002/40-notes.txt'', d_status = ''ready'',
                d_chunkCount = Some 1, d_errorMessage = None,
                d_createdAt = 40, d_updatedAt = 45\<rparr>"

definition report_chunk :: chunk_row where
  "report_chunk = \<lparr>c_id = ''c0000000-0000-4000-8000-000000000001'', c_documentId = report_id,
                   c_content = ''revenue grew 42% in 2020'', c_chunkIndex = 0,
                   c_pageNumber = Some 1, c_vectorId = Some ''v-1'', c_createdAt = 35\<rparr>"

definition notes_chunk :: chunk_row where
  "notes_chunk = \<lparr>c_id = ''c0000000-0000-4000-8000-000000000002'', c_documentId = notes_id,
                  c_content = ''buy milk'', c_chunkIndex = 0,
                  c_pageNumber = None, c_vectorId = Some ''v-2'', c_createdAt = 41\<rparr>"

definition office :: world where
  "office = \<lparr>users = [alice, bob], documents = [report_doc, notes_doc],
             chunks = [report_chunk, notes_chunk], documentCollections = [],
             queries = [], trace = []\<rparr>"


text \<open>
  Alice is signed in; no rate-limit cache is configured; the vector search finds nothing;
  both external deletions throw.
\<close>

definition quiet_env :: env where
  "quiet_env =
     \<lparr>auth = Some ''clerk_alice'',
      currentUser = None,
      redis = False,
      limiter_limit = (\<lambda>l u. Inl (Error ''cache unreachable'')),
      generateQueryEmbedding = (\<lambda>q. Inr [decimal 1 10]),
      searchVectors = (\<lambda>u v f. Inr []),
      generateRAGResponse = (\<lambda>q cs. Inr (''Growth was 42%'', 4)),
      uploadDocument = (\<lambda>f u. Inr (''gs://bucket/'' @ u @ ''/50-'' @ f_name f)),
      deleteDocument = (\<lambda>url. Inl (Error ''Failed to delete file from storage'')),
      deleteDocumentVectors = (\<lambda>u d. Inl (Error ''Failed to delete document vectors'')),
      WORKER_URL = None,
      WORKER_SECRET = None,
      startTime = 1000,
      now = 1250,
      newUserId = ''a0000000-0000-4000-8000-00000000000a'',
      newDocumentId = ''d0c00000-0000-4000-8000-00000000000a'',
      newQueryId = ''e0000000-0000-4000-8000-00000000000a'',
      stringify_sources = (\<lambda>srcs. ''[..]''),
      toISOString = (\<lambda>t. ''1970-01-01T00:00:00.000Z''),
      irregular_page = Inl (Error ''LIMIT must not be negative''),
      accepts_uuid = standard_uuid\<rparr>"








text \<open>The same deployment with the cache configured and the caller over the limit.\<close>

definition limited_env :: env where
  "limited_env =
     quiet_env\<lparr>redis := True,
               limiter_limit := (\<lambda>l u. Inr \<lparr>lr_success = False, lr_limit = int (tokens l),
                                             lr_remaining = 0, lr_reset = 3600000\<rparr>)\<rparr>"

text \<open>The same deployment with the cache configured and unreachable.\<close>

definition outage_env :: env where
  "outage_env = quiet_env\<lparr>redis := True\<rparr>"

text \<open>Nobody is signed in.\<close>

definition anonymous_env :: env where
  "anonymous_env = quiet_env\<lparr>auth := None\<rparr>"

text \<open>A first-time caller, without and with an email address at the provider.\<close>

definition carol_env :: env where
  "carol_env =
     quiet_env\<lparr>auth := Some ''clerk_carol'',
               currentUser := Some \<lparr>emailAddresses = [], firstName = Some ''Carol'',
                                    lastName = None, cu_imageUrl = None\<rparr>\<rparr>"

definition carol_email_env :: env where
  "carol_email_env =
     quiet_env\<lparr>auth := Some ''clerk_carol'',
               currentUser := Some \<lparr>emailAddresses = [''carol@example.com''],
                                    firstName = Some ''Carol'', lastName = Some ''Jones'',
                                    cu_imageUrl = None\<rparr>\<rparr>"

definition question :: query_request where
  "question = \<lparr>req_query = Some ''  How much did revenue grow? '', req_documentIds = None\<rparr>"

definition big_pdf :: upload_file where
  "big_pdf = \<lparr>f_name = ''big.pdf'', f_size = 62914560, f_type = ''application/pdf''\<rparr>"

definition small_pdf :: upload_file where
  "small_pdf = \<lparr>f_name = ''small.pdf'', f_size = 2097152, f_type = ''application/pdf''\<rparr>"

definition picture :: upload_file where
  "picture = \<lparr>f_name = ''cat.jpg'', f_size = 1024, f_type = ''image/jpeg''\<rparr>"

definition ready_update :: process_body where
  "ready_update = \<lparr>document_id = Some report_id, new_status = Some ''ready'',
                   chunk_count = Some 12, error_message = None\<rparr>"

text \<open>The same deployment three quarters of a second later.\<close>

definition later_env :: env where
  "later_env = quiet_env\<lparr>now := 2000\<rparr>"

section \<open>Properties\<close>

subsection \<open>Substrings, case folding and joins\<close>

lemma startsWith_iff: "startsWith s t \<longleftrightarrow> (\<exists>q. s = t @ q)"
  by (induction s t rule: startsWith.induct) auto

lemma includes_str_iff: "includes_str s t \<longleftrightarrow> (\<exists>p q. s = p @ t @ q)"
proof (induction s)
  case Nil
  then show ?case by simp
next
  case (Cons x s)
  show ?case
  proof
    assume "includes_str (x # s) t"
    then consider "startsWith (x # s) t" | "includes_str s t" by auto
    then show "\<exists>p q. x # s = p @ t @ q"
    proof cases
      case 1
      then obtain q where "x # s = t @ q" by (auto simp: startsWith_iff)
      then have "x # s = [] @ t @ q" by simp
      then show ?thesis by blast
    next
      case 2
      then obtain p q where "s = p @ t @ q" using Cons.IH by auto
      then have "x # s = (x # p) @ t @ q" by simp
      then show ?thesis by blast
    qed
  next
    assume "\<exists>p q. x # s = p @ t @ q"
    then obtain p q where pq: "x # s = p @ t @ q" by blast
    show "includes_str (x # s) t"
    proof (cases p)
      case Nil
      with pq have "startsWith (x # s) t" by (auto simp: startsWith_iff)
      then show ?thesis by simp
    next
      case (Cons y p')
      with pq have "s = p' @ t @ q" by simp
      then have "includes_str s t" using Cons.IH by blast
      then show ?thesis by simp
    qed
  qed
qed

lemma includes_is_substring: "includes_str s t = is_substring t s"
  by (simp add: includes_str_iff is_substring_def)

lemma lower_of_all: "\<forall>c. lower_of c = toLowerChar c"
  by code_simp

lemma decimal_digit_all: "\<forall>c. decimal_digit c = isDigit c"
  by code_simp

lemma lowercased_eq: "lowercased s = toLowerCase s"
  by (simp add: lowercased_def toLowerCase_def lower_of_all)

lemma decimal_digit_eq: "decimal_digit c = isDigit c"
  by (simp add: decimal_digit_all)

lemma certainty_words_eq: "certainty_words = strongAssertions"
  by (simp add: certainty_words_def strongAssertions_def)

lemma suffixes_eq:
  "{''%'', ''percent'', ''million'', ''billion'', ''thousand''} = set magnitudes"
  by (simp add: magnitudes_def)

lemma toLowerCase_append: "toLowerCase (a @ b) = toLowerCase a @ toLowerCase b"
  by (simp add: toLowerCase_def)

lemma join_space: "join '' '' (x # xs) = x @ concat (map (\<lambda>y. '' '' @ y) xs)"
  by (induction xs arbitrary: x) simp_all

lemma concatenated_context_join:
  "concatenated_context contexts = join '' '' (map content contexts)"
  by (cases contexts) (simp_all add: concatenated_context_def join_space comp_def)

lemma toLowerCase_join:
  "toLowerCase (join sep xs) = join (toLowerCase sep) (map toLowerCase xs)"
  by (induction sep xs rule: join.induct) (simp_all add: toLowerCase_append, simp add: toLowerCase_def)

lemma contextTextOf_eq: "contextTextOf cs = lowercased (concatenated_context cs)"
  by (simp add: contextTextOf_def concatenated_context_join lowercased_eq toLowerCase_join
      comp_def)
     (simp add: toLowerCase_def toLowerChar_def)

lemma is_substring_join:
  "x \<in> set xs \<Longrightarrow> is_substring t x \<Longrightarrow> is_substring t (join sep xs)"
proof (induction sep xs rule: join.induct)
  case (1 sep)
  then show ?case by simp
next
  case (2 sep x')
  then show ?case by simp
next
  case (3 sep x' y ys)
  show ?case
  proof (cases "x = x'")
    case True
    with 3 obtain p q where "x' = p @ t @ q" by (auto simp: is_substring_def)
    then have "join sep (x' # y # ys) = p @ t @ (q @ sep @ join sep (y # ys))" by simp
    then show ?thesis unfolding is_substring_def by blast
  next
    case False
    with 3 have "is_substring t (join sep (y # ys))" by auto
    then obtain p q where "join sep (y # ys) = p @ t @ q" by (auto simp: is_substring_def)
    then have "join sep (x' # y # ys) = (x' @ sep @ p) @ t @ q" by simp
    then show ?thesis unfolding is_substring_def by blast
  qed
qed

lemma is_substring_lowercased:
  "is_substring t s \<Longrightarrow> is_substring (lowercased t) (lowercased s)"
  by (auto simp: is_substring_def lowercased_def) blast

lemma numbers_loop_iff:
  "numbers_loop nums ctx \<longleftrightarrow> (\<exists>num \<in> set nums. \<not> includes_str ctx (toLowerCase num))"
  by (induction nums) auto

lemma assertions_loop_iff:
  "assertions_loop ws a ctx \<longleftrightarrow> (\<exists>w \<in> set ws. includes_str a w \<and> \<not> includes_str ctx w)"
  by (induction ws) auto

subsection \<open>The matches of the regular expression\<close>

lemma digits_iff: "digits s \<longleftrightarrow> s \<noteq> [] \<and> (\<forall>c \<in> set s. isDigit c)"
  by (simp add: digits_def decimal_digit_eq)

lemma numeric_token_iff:
  "numeric_token tok \<longleftrightarrow>
     (\<exists>whole frac suffix.
        tok = whole @ frac @ suffix
        \<and> digits whole
        \<and> (frac = [] \<or> (\<exists>ds. frac = CHR ''.'' # ds \<and> digits ds))
        \<and> (suffix = [] \<or> toLowerCase suffix \<in> set magnitudes))"
  unfolding numeric_token_def lowercased_eq suffixes_eq ..

lemma takeWhile_drop: "takeWhile P s @ drop (length (takeWhile P s)) s = s"
  by (metis append_take_drop_id takeWhile_eq_take)

lemma matchFraction_prefix: "matchFraction s @ drop (length (matchFraction s)) s = s"
  by (auto simp: matchFraction_def takeWhile_drop split: list.splits)

lemma matchFraction_shape:
  "matchFraction s = [] \<or> (\<exists>ds. matchFraction s = CHR ''.'' # ds \<and> digits ds)"
  by (auto simp: matchFraction_def digits_iff split: list.splits dest: set_takeWhileD)

lemma startsWith_take: "startsWith s m \<Longrightarrow> take (length m) s = m"
  by (induction s m rule: startsWith.induct) auto

lemma take_drop_length: "take k s @ drop (length (take k s)) s = s"
  by (cases "k \<le> length s") (simp_all add: min_def)

lemma matchMagnitude_prefix: "matchMagnitude s @ drop (length (matchMagnitude s)) s = s"
  unfolding matchMagnitude_def
  by (cases "filter (\<lambda>m. startsWith (toLowerCase s) m) magnitudes")
     (simp_all only: list.case take_drop_length, simp)

lemma matchMagnitude_shape:
  "matchMagnitude s = [] \<or> toLowerCase (matchMagnitude s) \<in> set magnitudes"
proof (cases "filter (\<lambda>m. startsWith (toLowerCase s) m) magnitudes")
  case Nil
  then show ?thesis by (simp add: matchMagnitude_def)
next
  case (Cons m ms)
  then have "m \<in> set (filter (\<lambda>m. startsWith (toLowerCase s) m) magnitudes)" by simp
  then have m: "m \<in> set magnitudes" "startsWith (toLowerCase s) m" by auto
  have "toLowerCase (take (length m) s) = take (length m) (toLowerCase s)"
    by (simp add: toLowerCase_def take_map)
  also have "\<dots> = m" using m(2) by (rule startsWith_take)
  finally show ?thesis using Cons m(1) by (simp add: matchMagnitude_def)
qed

lemma matchNumberAt_parts:
  assumes "matchNumberAt s = Some tok"
  shows "takeWhile isDigit s \<noteq> []"
    and "tok = takeWhile isDigit s
               @ matchFraction (drop (length (takeWhile isDigit s)) s)
               @ matchMagnitude
                   (drop (length (matchFraction (drop (length (takeWhile isDigit s)) s)))
                      (drop (length (takeWhile isDigit s)) s))"
  using assms by (auto simp: matchNumberAt_def Let_def split: if_splits)

lemma matchNumberAt_token:
  assumes "matchNumberAt s = Some tok"
  shows "numeric_token tok \<and> (\<exists>r. s = tok @ r)"
proof -
  let ?ds = "takeWhile isDigit s"
  let ?r1 = "drop (length ?ds) s"
  let ?frac = "matchFraction ?r1"
  let ?r2 = "drop (length ?frac) ?r1"
  let ?mag = "matchMagnitude ?r2"
  from matchNumberAt_parts [OF assms] have ne: "?ds \<noteq> []" and tok: "tok = ?ds @ ?frac @ ?mag"
    by simp_all
  have d: "digits ?ds"
    using ne by (auto simp: digits_iff dest: set_takeWhileD)
  have shape: "numeric_token tok"
    unfolding numeric_token_iff
    using tok d matchFraction_shape [of ?r1] matchMagnitude_shape [of ?r2] by blast
  have "s = ?ds @ ?r1" by (rule takeWhile_drop [symmetric])
  also have "?r1 = ?frac @ ?r2" by (rule matchFraction_prefix [symmetric])
  also have "?r2 = ?mag @ drop (length ?mag) ?r2" by (rule matchMagnitude_prefix [symmetric])
  finally have "s = tok @ drop (length ?mag) ?r2" unfolding tok by (simp only: append_assoc)
  with shape show ?thesis by blast
qed

text \<open>A magnitude suffix starts with neither a digit nor a dot.\<close>

lemma magnitude_first:
  assumes "toLowerCase u \<in> set magnitudes"
  shows "\<exists>c cs. u = c # cs \<and> \<not> isDigit c \<and> c \<noteq> CHR ''.''"
proof (cases u)
  case Nil
  with assms show ?thesis by (simp add: magnitudes_def toLowerCase_def)
next
  case (Cons c cs)
  with assms have "toLowerChar c \<in> set ''%pmbt''"
    by (auto simp: magnitudes_def toLowerCase_def)
  then have "\<not> isDigit c \<and> c \<noteq> CHR ''.''"
    by (auto simp: isDigit_def toLowerChar_def)
  with Cons show ?thesis by blast
qed

text \<open>No magnitude suffix is the beginning of another.\<close>

lemma magnitudes_prefix_free:
  assumes "a \<in> set magnitudes" "b \<in> set magnitudes" "startsWith s a" "startsWith s b"
  shows "a = b"
proof (cases s)
  case Nil
  with assms show ?thesis by (auto simp: magnitudes_def)
next
  case (Cons x xs)
  with assms show ?thesis by (auto simp: magnitudes_def)
qed

lemma startsWith_append: "startsWith (a @ r) a"
  by (simp add: startsWith_iff)

lemma matchMagnitude_exact:
  assumes "toLowerCase u \<in> set magnitudes"
  shows "matchMagnitude (u @ r) = u"
proof -
  let ?s = "toLowerCase (u @ r)"
  have sw: "startsWith ?s (toLowerCase u)"
    by (simp add: toLowerCase_append startsWith_append)
  with assms have "toLowerCase u \<in> set (filter (\<lambda>m. startsWith ?s m) magnitudes)"
    by simp
  then obtain m ms where f: "filter (\<lambda>m. startsWith ?s m) magnitudes = m # ms"
    by (cases "filter (\<lambda>m. startsWith ?s m) magnitudes") auto
  then have "m \<in> set (filter (\<lambda>m. startsWith ?s m) magnitudes)" by simp
  then have "m \<in> set magnitudes" "startsWith ?s m" by auto
  with assms sw have "m = toLowerCase u" by (blast intro: magnitudes_prefix_free)
  then have "length m = length u" by (simp add: toLowerCase_def)
  with f show ?thesis by (simp add: matchMagnitude_def)
qed

lemma takeWhile_digits: "digits w \<Longrightarrow> takeWhile isDigit (w @ x) = w @ takeWhile isDigit x"
  by (simp add: digits_iff takeWhile_append2)

lemma takeWhile_Nil_iff: "takeWhile P x = [] \<longleftrightarrow> x = [] \<or> \<not> P (hd x)"
  by (cases x) auto

text \<open>A suffix part that is followed in the text by a digit is empty.\<close>

lemma suffix_before_digit:
  assumes "u = [] \<or> toLowerCase u \<in> set magnitudes" and "takeWhile isDigit (u @ r) \<noteq> []"
  shows "u = []"
proof (rule ccontr)
  assume "u \<noteq> []"
  with assms(1) obtain c cs where "u = c # cs" "\<not> isDigit c"
    using magnitude_first by blast
  with assms(2) show False by simp
qed

lemma matchFraction_none:
  assumes "u = [] \<or> toLowerCase u \<in> set magnitudes" and "u \<noteq> []"
  shows "matchFraction (u @ r) = []"
proof -
  from assms obtain c cs where "u = c # cs" "c \<noteq> CHR ''.''"
    using magnitude_first by blast
  then show ?thesis by (simp add: matchFraction_def)
qed

lemma dot_not_digit: "\<not> isDigit CHR ''.''"
  by (simp add: isDigit_def)

lemma matchNumberAt_longest:
  assumes m: "matchNumberAt s = Some tok" and t: "numeric_token t" and s: "s = t @ r"
  shows "length t \<le> length tok"
proof -
  let ?ds = "takeWhile isDigit s"
  let ?r1 = "drop (length ?ds) s"
  let ?frac = "matchFraction ?r1"
  let ?r2 = "drop (length ?frac) ?r1"
  let ?mag = "matchMagnitude ?r2"
  from matchNumberAt_parts [OF m] have tok: "tok = ?ds @ ?frac @ ?mag" by simp
  from t obtain w f u where parts: "t = w @ f @ u" and w: "digits w"
    and f: "f = [] \<or> (\<exists>fd. f = CHR ''.'' # fd \<and> digits fd)"
    and u: "u = [] \<or> toLowerCase u \<in> set magnitudes"
    unfolding numeric_token_iff by blast
  let ?x = "f @ u @ r"
  have sx: "s = w @ ?x" by (simp add: s parts)
  have ds: "?ds = w @ takeWhile isDigit ?x"
    unfolding sx using w by (rule takeWhile_digits)
  show ?thesis
  proof (cases "takeWhile isDigit ?x = []")
    case False
    then have "f = []" using f by (auto simp: dot_not_digit)
    with False have "takeWhile isDigit (u @ r) \<noteq> []" by simp
    with u have "u = []" by (rule suffix_before_digit)
    with \<open>f = []\<close> have "t = w" by (simp add: parts)
    then show ?thesis by (simp add: tok ds)
  next
    case True
    then have dsw: "?ds = w" by (simp add: ds)
    then have r1: "?r1 = ?x" by (simp add: sx)
    show ?thesis
    proof (cases "f = []")
      case fnil: True
      show ?thesis
      proof (cases "u = []")
        case True
        with fnil have "t = w" by (simp add: parts)
        then show ?thesis by (simp add: tok dsw)
      next
        case False
        have "?frac = []"
          unfolding r1 fnil using u False by (simp add: matchFraction_none)
        then have "?r2 = u @ r" by (simp add: r1 fnil)
        moreover from u False have "matchMagnitude (u @ r) = u"
          by (simp add: matchMagnitude_exact)
        ultimately have "tok = w @ u"
          using \<open>?frac = []\<close> by (simp add: tok dsw)
        then show ?thesis by (simp add: parts fnil)
      qed
    next
      case False
      with f obtain fd where fd: "f = CHR ''.'' # fd" "digits fd" by blast
      have tw: "takeWhile isDigit (fd @ u @ r) = fd @ takeWhile isDigit (u @ r)"
        using fd(2) by (rule takeWhile_digits)
      from fd(2) have "fd \<noteq> []" by (simp add: digits_iff)
      then have frac: "?frac = CHR ''.'' # fd @ takeWhile isDigit (u @ r)"
        unfolding r1 by (simp add: fd(1) matchFraction_def tw)
      show ?thesis
      proof (cases "takeWhile isDigit (u @ r) = []")
        case False
        with u have "u = []" by (rule suffix_before_digit)
        then have lt: "length t = length w + length f" by (simp add: parts)
        have "length ?ds = length w" by (simp only: dsw)
        moreover have "length f \<le> length ?frac" by (simp only: frac fd(1)) simp
        moreover have "length tok = length ?ds + length ?frac + length ?mag"
          by (subst tok) (simp only: length_append add.assoc)
        ultimately show ?thesis using lt by linarith
      next
        case True
        then have ff: "?frac = f" by (simp add: frac fd(1))
        then have r2: "?r2 = u @ r" by (simp add: r1)
        have lds: "length ?ds = length w" by (simp only: dsw)
        have lfr: "length ?frac = length f" by (simp only: ff)
        have ltok: "length tok = length ?ds + length ?frac + length ?mag"
          by (subst tok) (simp only: length_append add.assoc)
        show ?thesis
        proof (cases "u = []")
          case True
          then have "length t = length w + length f" by (simp add: parts)
          with lds lfr ltok show ?thesis by linarith
        next
          case False
          with u have "matchMagnitude (u @ r) = u" by (simp add: matchMagnitude_exact)
          then have "length ?mag = length u" by (simp only: r2)
          moreover have "length t = length w + length f + length u" by (simp add: parts)
          ultimately show ?thesis using lds lfr ltok by linarith
        qed
      qed
    qed
  qed
qed

lemma matchNumberAt_longest_prefix:
  "matchNumberAt s = Some tok \<Longrightarrow> longest_numeric_prefix s tok"
  unfolding longest_numeric_prefix_def
  using matchNumberAt_token matchNumberAt_longest by blast

lemma matchNumberAt_None_iff: "matchNumberAt s = None \<longleftrightarrow> s = [] \<or> \<not> isDigit (hd s)"
  by (cases s) (auto simp: matchNumberAt_def Let_def)

lemma matchNumberAt_nonempty: "matchNumberAt s = Some tok \<Longrightarrow> tok \<noteq> []"
  using matchNumberAt_parts(1) matchNumberAt_parts(2) by fastforce

lemma numeric_token_head: "numeric_token t \<Longrightarrow> \<exists>c cs. t = c # cs \<and> isDigit c"
  unfolding numeric_token_iff digits_iff
  by (metis append_Cons list.exhaust list.set_intros(1))

lemma matchAll_Nil [simp]: "matchAll [] = []"
  by (subst matchAll.simps) simp

lemma matchAll_no_digit: "\<forall>c \<in> set s. \<not> isDigit c \<Longrightarrow> matchAll s = []"
proof (induction s)
  case Nil
  then show ?case by simp
next
  case (Cons c s)
  then have "matchNumberAt (c # s) = None" by (simp add: matchNumberAt_None_iff)
  with Cons show ?case by (subst matchAll.simps) simp
qed

lemma matchAll_skip_gap: "\<forall>c \<in> set gap. \<not> isDigit c \<Longrightarrow> matchAll (gap @ x) = matchAll x"
proof (induction gap)
  case Nil
  then show ?case by simp
next
  case (Cons c gap)
  then have "matchNumberAt ((c # gap) @ x) = None" by (simp add: matchNumberAt_None_iff)
  with Cons show ?case by (subst matchAll.simps) simp
qed

lemma matchAll_Some:
  assumes "matchNumberAt s = Some tok"
  shows "\<exists>rest. s = tok @ rest \<and> matchAll s = tok # matchAll rest"
proof -
  from matchNumberAt_token [OF assms] obtain rest where s: "s = tok @ rest" by blast
  from matchNumberAt_nonempty [OF assms] have ne: "tok \<noteq> []" .
  then have "max 1 (length tok) = length tok" by (cases tok) simp_all
  then have "drop (max 1 (length tok)) s = rest" by (simp add: s)
  moreover from ne s have "s \<noteq> []" by simp
  ultimately have "matchAll s = tok # matchAll rest"
    using assms by (subst matchAll.simps) simp
  with s show ?thesis by blast
qed

lemma numeric_tokens_skip:
  assumes "\<not> decimal_digit c" and "numeric_tokens s ts"
  shows "numeric_tokens (c # s) ts"
  using assms(2)
proof (cases rule: numeric_tokens.cases)
  case no_digit
  with assms(1) have "\<forall>x \<in> set (c # s). \<not> decimal_digit x" by simp
  then have "numeric_tokens (c # s) []" by (rule numeric_tokens.no_digit)
  with no_digit show ?thesis by simp
next
  case (token gap tok rest toks)
  from token(3) assms(1) have "\<forall>x \<in> set (c # gap). \<not> decimal_digit x" by simp
  from numeric_tokens.token [OF this token(4) token(5)] token(1) token(2)
  show ?thesis by simp
qed

lemma matchAll_sound: "numeric_tokens s (matchAll s)"
proof (induction s rule: matchAll.induct)
  case (1 s)
  show ?case
  proof (cases "s = []")
    case True
    then show ?thesis by (auto intro: numeric_tokens.no_digit)
  next
    case ne: False
    show ?thesis
    proof (cases "matchNumberAt s")
      case None
      with ne obtain c s' where s: "s = c # s'" and c: "\<not> isDigit c"
        by (cases s) (auto simp: matchNumberAt_None_iff)
      from "1.IH"(1) [OF ne None] have "numeric_tokens s' (matchAll s')" by (simp add: s)
      with c have "numeric_tokens (c # s') (matchAll s')"
        by (intro numeric_tokens_skip) (simp_all add: decimal_digit_eq)
      moreover from ne None have "matchAll s = matchAll s'"
        by (subst matchAll.simps) (simp add: s)
      ultimately show ?thesis by (simp add: s)
    next
      case (Some tok)
      from matchAll_Some [OF Some] obtain rest
        where s: "s = tok @ rest" and all: "matchAll s = tok # matchAll rest" by blast
      from matchNumberAt_nonempty [OF Some] have "max 1 (length tok) = length tok"
        by (cases tok) simp_all
      then have "drop (max 1 (length tok)) s = rest" by (simp add: s)
      with "1.IH"(2) [OF ne Some] have ih: "numeric_tokens rest (matchAll rest)" by simp
      from matchNumberAt_longest_prefix [OF Some] s
      have lp: "longest_numeric_prefix (tok @ rest) tok" by simp
      have "numeric_tokens ([] @ tok @ rest) (tok # matchAll rest)"
        by (rule numeric_tokens.token [OF _ lp ih]) simp
      then show ?thesis by (simp add: s [symmetric] all)
    qed
  qed
qed

lemma longest_numeric_prefix_unique:
  assumes "longest_numeric_prefix s a" and "longest_numeric_prefix s b"
  shows "a = b"
proof -
  from assms obtain ra rb where a: "s = a @ ra" and b: "s = b @ rb"
    unfolding longest_numeric_prefix_def by blast
  from assms a b have "length a \<le> length b" "length b \<le> length a"
    unfolding longest_numeric_prefix_def by blast+
  then have "length a = length b" by simp
  with a b show ?thesis by (metis append_eq_append_conv)
qed

lemma matchAll_complete: "numeric_tokens s ts \<Longrightarrow> ts = matchAll s"
proof (induction rule: numeric_tokens.induct)
  case (no_digit s)
  then show ?case by (simp add: matchAll_no_digit decimal_digit_eq)
next
  case (token gap tok rest toks)
  from token(2) have "numeric_token tok" by (simp add: longest_numeric_prefix_def)
  then obtain c cs where tok: "tok = c # cs" "isDigit c" using numeric_token_head by blast
  then have "matchNumberAt (tok @ rest) \<noteq> None" by (simp add: matchNumberAt_None_iff)
  then obtain tok' where m: "matchNumberAt (tok @ rest) = Some tok'" by blast
  from matchNumberAt_longest_prefix [OF m] token(2) have "tok' = tok"
    by (rule longest_numeric_prefix_unique)
  with matchAll_Some [OF m] have "matchAll (tok @ rest) = tok # matchAll rest" by auto
  moreover from token(1) have "matchAll (gap @ tok @ rest) = matchAll (tok @ rest)"
    by (intro matchAll_skip_gap) (simp add: decimal_digit_eq)
  ultimately show ?case using token.IH by simp
qed

lemma numeric_tokens_iff: "numeric_tokens s ts \<longleftrightarrow> ts = matchAll s"
  using matchAll_sound matchAll_complete by blast

subsection \<open>The hallucination heuristic\<close>

text \<open>
  C2. For every answer and every list of context strings, the detector returns true
  exactly when (a) some numeric token of the answer does not occur, case-insensitively,
  as a substring of the concatenated context, or (b) one of the words always, never,
  exactly, precisely, definitely occurs in the lowercased answer and not in the
  lowercased concatenated context. The right-hand side is stated with notions defined
  apart from the detector: a substring by decomposition, lower case by character codes,
  and the numeric tokens of the answer as its successive leftmost, longest pieces made of
  digits, an optional decimal part and an optional suffix out of %, percent, million,
  billion, thousand. In particular a token that stands verbatim in one of the context
  strings, such as 42%, occurs in the concatenated context and so is not a token on which
  the detector fires.
\<close>

theorem hallucination_heuristic_meets_spec:
  "(detectPotentialHallucination answer contexts \<longleftrightarrow> spec_hallucination answer contexts)
   \<and> (\<forall>c \<in> set contexts. \<forall>tok. is_substring tok (content c)
          \<longrightarrow> occurs_ci tok (concatenated_context contexts))"
proof
  show "detectPotentialHallucination answer contexts \<longleftrightarrow> spec_hallucination answer contexts"
    by (simp add: detectPotentialHallucination_def spec_hallucination_def occurs_ci_def
        numbers_loop_iff assertions_loop_iff Let_def contextTextOf_eq numeric_tokens_iff
        includes_is_substring lowercased_eq [symmetric] certainty_words_eq)
  show "\<forall>c \<in> set contexts. \<forall>tok. is_substring tok (content c)
          \<longrightarrow> occurs_ci tok (concatenated_context contexts)"
  proof (intro ballI allI impI)
    fix c tok
    assume c: "c \<in> set contexts" and t: "is_substring tok (content c)"
    from c have "content c \<in> set (map content contexts)" by simp
    then have "is_substring tok (concatenated_context contexts)"
      unfolding concatenated_context_join using t by (rule is_substring_join)
    then show "occurs_ci tok (concatenated_context contexts)"
      unfolding occurs_ci_def by (rule is_substring_lowercased)
  qed
qed

lemma detect_examples:
  "\<not> detectPotentialHallucination ''Growth was 42%'' [\<lparr>content = ''revenue grew 42% in 2020''\<rparr>]"
  "detectPotentialHallucination ''grew 3.5%'' [\<lparr>content = ''3 of 5% grew''\<rparr>]"
  "\<not> detectPotentialHallucination ''up 3.5 Million'' [\<lparr>content = ''about 3.5 million more''\<rparr>]"
  "detectPotentialHallucination ''It ALWAYS works'' [\<lparr>content = ''it works''\<rparr>]"
  "\<not> detectPotentialHallucination ''It is never late'' [\<lparr>content = ''Never late''\<rparr>]"
  by code_simp+

theorem hallucination_heuristic_meets_spec_witness:
  "\<not> spec_hallucination ''Growth was 42%'' [\<lparr>content = ''revenue grew 42% in 2020''\<rparr>]
   \<and> occurs_ci ''42%'' (concatenated_context [\<lparr>content = ''revenue grew 42% in 2020''\<rparr>])
   \<and> spec_hallucination ''grew 3.5%'' [\<lparr>content = ''3 of 5% grew''\<rparr>]
   \<and> \<not> spec_hallucination ''up 3.5 Million'' [\<lparr>content = ''about 3.5 million more''\<rparr>]
   \<and> spec_hallucination ''It ALWAYS works'' [\<lparr>content = ''it works''\<rparr>]
   \<and> \<not> spec_hallucination ''It is never late'' [\<lparr>content = ''Never late''\<rparr>]"
proof -
  have sub: "is_substring ''42%'' (content \<lparr>content = ''revenue grew 42% in 2020''\<rparr>)"
    by (simp add: includes_is_substring [symmetric])
  note spec = hallucination_heuristic_meets_spec
  from spec [of "''Growth was 42%''" "[\<lparr>content = ''revenue grew 42% in 2020''\<rparr>]"]
    spec [of "''grew 3.5%''" "[\<lparr>content = ''3 of 5% grew''\<rparr>]"]
    spec [of "''up 3.5 Million''" "[\<lparr>content = ''about 3.5 million more''\<rparr>]"]
    spec [of "''It ALWAYS works''" "[\<lparr>content = ''it works''\<rparr>]"]
    spec [of "''It is never late''" "[\<lparr>content = ''Never late''\<rparr>]"]
    detect_examples sub
  show ?thesis by simp
qed

subsection \<open>The query handler\<close>

lemma round_half_even_nearest:
  assumes "q > 0"
  shows "2 * \<bar>round_half_even p q * q - p\<bar> \<le> q
         \<and> (2 * \<bar>round_half_even p q * q - p\<bar> = q \<longrightarrow> even (round_half_even p q))"
proof -
  define m where "m = p div q"
  define r where "r = p mod q"
  have p: "p = m * q + r" by (simp add: m_def r_def)
  have r: "0 \<le> r" "r < q" using assms by (simp_all add: r_def)
  show ?thesis
  proof (cases "2 * r > q \<or> (2 * r = q \<and> odd m)")
    case True
    then have res: "round_half_even p q = m + 1"
      by (simp add: round_half_even_def Let_def m_def r_def)
    have "(m + 1) * q - p = q - r" by (simp add: p algebra_simps)
    with True r show ?thesis unfolding res by auto
  next
    case False
    then have res: "round_half_even p q = m"
      by (simp add: round_half_even_def Let_def m_def r_def)
    have "m * q - p = - r" by (simp add: p)
    with False r show ?thesis unfolding res by auto
  qed
qed













lemma report_id_accepted: "standard_uuid report_id"
  by code_simp







subsection \<open>The rate limiter\<close>

text \<open>
  C9. For every user and operation class, when the rate-limit cache is not configured
  (no limiter was constructed) or the limit check throws, \<open>checkRateLimit\<close> returns
  success: the request is allowed, the limiter never fails closed.
\<close>

theorem rate_limiter_fails_open:
  assumes "\<not> redis e
           \<or> (\<exists>l err. (if type = upload then uploadRateLimiter e else queryRateLimiter e) = Some l
                      \<and> limiter_limit e l userId = Inl err)"
  shows "checkRateLimit e userId type
         = \<lparr>success = True, limit = None, remaining = None, reset = None\<rparr>"
  using assms
  by (auto simp: checkRateLimit_def uploadRateLimiter_def queryRateLimiter_def Let_def)

theorem rate_limiter_fails_open_witness:
  "success (checkRateLimit quiet_env ''clerk_alice'' upload)
   \<and> success (checkRateLimit outage_env ''clerk_alice'' query)"
proof -
  have a: "\<not> redis quiet_env"
    by (simp add: quiet_env_def)
  have b: "\<exists>l err. (if query = upload then uploadRateLimiter outage_env
                     else queryRateLimiter outage_env) = Some l
                    \<and> limiter_limit outage_env l ''clerk_alice'' = Inl err"
    by (simp add: outage_env_def quiet_env_def queryRateLimiter_def)
  from a have a': "\<not> redis quiet_env
           \<or> (\<exists>l err. (if upload = upload then uploadRateLimiter quiet_env
                        else queryRateLimiter quiet_env) = Some l
                      \<and> limiter_limit quiet_env l ''clerk_alice'' = Inl err)" ..
  from b have b': "\<not> redis outage_env
           \<or> (\<exists>l err. (if query = upload then uploadRateLimiter outage_env
                        else queryRateLimiter outage_env) = Some l
                      \<and> limiter_limit outage_env l ''clerk_alice'' = Inl err)" ..
  from rate_limiter_fails_open [OF a'] rate_limiter_fails_open [OF b']
  show ?thesis by simp
qed

text \<open>
  C8. A query of a caller who is over the limit is answered with status 429 and leaves
  the world untouched: no embedding, search, generation or row. The body carries the
  error text and the remaining quota only; the reset time that the limiter returned is
  not in it, while the upload handler puts it into its own 429 body.
\<close>

theorem query_rate_limit_body_lacks_reset:
  "queryRateLimiter limited_env
     = Some \<lparr>tokens = 100, window = ''1 h'', prefix = ''ratelimit:query''\<rparr>
   \<and> checkRateLimit limited_env ''clerk_alice'' query
     = \<lparr>success = False, limit = Some 100, remaining = Some 0, reset = Some 3600000\<rparr>
   \<and> POST_query limited_env (Inr question) office
     = (json_response 429
          [(''error'', JStr ''Rate limit exceeded. Please try again later.''),
           (''remaining'', JNum 0)],
        office)
   \<and> map_of (response_object (fst (POST_query limited_env (Inr question) office))) ''reset''
       = None
   \<and> map_of (response_object (fst (POST_upload limited_env (Inr (Some small_pdf)) office)))
        ''reset''
       = Some (JNum 3600000)"
  by (simp add: POST_query_def POST_upload_def limited_env_def quiet_env_def checkRateLimit_def
      queryRateLimiter_def uploadRateLimiter_def opt_num_def json_response_def
      response_object_def Let_def)

subsection \<open>The upload handler\<close>

text \<open>
  C5, with the two gates of the handler taken into account. For every upload request
  with a file strictly larger than 50 MB, or whose MIME type is not on the allow-list,
  the handler performs no storage write and creates no row: it leaves the world as it
  found it. When the caller is authenticated and within the rate limit, the response is
  the 400 validation error, size-exceeded for a file that is too large and type-rejected
  otherwise.
\<close>

theorem upload_validation_rejects:
  assumes "f_size file > MAX_FILE_SIZE \<or> f_type file \<notin> set ALLOWED_FILE_TYPES"
  shows "snd (POST_upload e (Inr (Some file)) w) = w
         \<and> (\<forall>clerkId. auth e = Some clerkId \<and> success (checkRateLimit e clerkId upload)
              \<longrightarrow> fst (POST_upload e (Inr (Some file)) w)
                    = json_response 400
                        [(''error'',
                          JStr (if f_size file > MAX_FILE_SIZE
                                then ''File too large. Maximum size is 50MB.''
                                else ''Invalid file type. Allowed types: PDF, TXT, MD, DOC, DOCX.''))])"
  using assms
  by (auto simp: POST_upload_def Let_def split: option.splits)

theorem upload_validation_rejects_witness:
  "POST_upload quiet_env (Inr (Some big_pdf)) office
     = (json_response 400 [(''error'', JStr ''File too large. Maximum size is 50MB.'')], office)
   \<and> POST_upload quiet_env (Inr (Some picture)) office
     = (json_response 400
          [(''error'', JStr ''Invalid file type. Allowed types: PDF, TXT, MD, DOC, DOCX.'')],
        office)"
proof -
  have big: "f_size big_pdf > MAX_FILE_SIZE \<or> f_type big_pdf \<notin> set ALLOWED_FILE_TYPES"
    by (simp add: big_pdf_def MAX_FILE_SIZE_def)
  have pic: "f_size picture > MAX_FILE_SIZE \<or> f_type picture \<notin> set ALLOWED_FILE_TYPES"
    by (simp add: picture_def ALLOWED_FILE_TYPES_def)
  have pic_size: "\<not> f_size picture > MAX_FILE_SIZE"
    by (simp add: picture_def MAX_FILE_SIZE_def)
  have big_size: "f_size big_pdf > MAX_FILE_SIZE"
    by (simp add: big_pdf_def MAX_FILE_SIZE_def)
  have a: "auth quiet_env = Some ''clerk_alice''"
    by (simp add: quiet_env_def)
  have r: "success (checkRateLimit quiet_env ''clerk_alice'' upload)"
    by (simp add: checkRateLimit_def quiet_env_def uploadRateLimiter_def)
  from upload_validation_rejects [OF big, of quiet_env office]
       upload_validation_rejects [OF pic, of quiet_env office] a r pic_size big_size
  show ?thesis
    by (simp add: prod_eq_iff)
qed

text \<open>
  Without the two gates the property does not hold: a 60 MB PDF is answered with 401 when
  nobody is signed in and with 429 when the caller is over the upload limit, since both
  checks run before the file is looked at.
\<close>

theorem upload_gate_counterexample:
  "f_size big_pdf > MAX_FILE_SIZE
   \<and> status (fst (POST_upload anonymous_env (Inr (Some big_pdf)) office)) = 401
   \<and> status (fst (POST_upload limited_env (Inr (Some big_pdf)) office)) = 429"
  by (simp add: POST_upload_def anonymous_env_def limited_env_def quiet_env_def big_pdf_def
      MAX_FILE_SIZE_def json_response_def checkRateLimit_def uploadRateLimiter_def)

lemma upload_store_effects:
  "\<exists>rest. users (snd (upload_store e file user w)) = users w
          \<and> trace (snd (upload_store e file user w))
              = trace w @ StorageUploadCall (u_id user) (f_name file) # rest"
  by (simp add: upload_store_def Let_def log_effect_def split: sum.splits option.splits)

text \<open>
  C10. For an authenticated caller with no user row whose request gets to and passes the
  size and type validation: when the identity provider gives no email address for the
  caller, the upload fails with the 400 error "Unable to retrieve user email ..." and the
  world is unchanged (no storage write, no user row, no document row); otherwise the user
  row is created with the provider's email, and its insertion precedes the storage write
  in the trace.
\<close>

theorem upload_first_time_caller:
  assumes "auth e = Some clerkId"
    and "success (checkRateLimit e clerkId upload)"
    and "f_size file \<le> MAX_FILE_SIZE"
    and "f_type file \<in> set ALLOWED_FILE_TYPES"
    and "find_user clerkId w = None"
  shows "(provider_email e = None
            \<longrightarrow> POST_upload e (Inr (Some file)) w
                  = (json_response 400
                       [(''error'',
                         JStr ''Unable to retrieve user email from authentication provider.'')],
                     w))
         \<and> (\<forall>email. provider_email e = Some email
              \<longrightarrow> (\<exists>user rest.
                     u_id user = newUserId e \<and> u_clerkId user = clerkId \<and> u_email user = email
                     \<and> users (snd (POST_upload e (Inr (Some file)) w)) = users w @ [user]
                     \<and> trace (snd (POST_upload e (Inr (Some file)) w))
                         = trace w @ DbInsert ''users''
                             # StorageUploadCall (u_id user) (f_name file) # rest))"
proof -
  have run: "POST_upload e (Inr (Some file)) w = upload_user e clerkId file w"
    using assms by (simp add: POST_upload_def Let_def)
  have none: "provider_email e = None
            \<Longrightarrow> upload_user e clerkId file w
                  = (json_response 400
                       [(''error'',
                         JStr ''Unable to retrieve user email from authentication provider.'')],
                     w)"
    using assms(5)
    by (auto simp: upload_user_def provider_email_def Let_def split: option.splits list.splits if_splits)
  have some: "\<exists>user rest.
                     u_id user = newUserId e \<and> u_clerkId user = clerkId \<and> u_email user = email
                     \<and> users (snd (upload_user e clerkId file w)) = users w @ [user]
                     \<and> trace (snd (upload_user e clerkId file w))
                         = trace w @ DbInsert ''users''
                             # StorageUploadCall (u_id user) (f_name file) # rest"
    if em: "provider_email e = Some email" for email
  proof -
    from em obtain cu others where cu: "currentUser e = Some cu"
      and addr: "emailAddresses cu = email # others" and ne: "email \<noteq> []"
      by (auto simp: provider_email_def split: option.splits list.splits if_splits)
    define user where "user = \<lparr>u_id = newUserId e,
                                  u_clerkId = clerkId,
                                  u_email = email,
                                  u_name =
                                    (case firstName cu of
                                       None \<Rightarrow> None
                                     | Some first \<Rightarrow>
                                         if first = [] then None
                                         else Some (first @ (case lastName cu of
                                                            None \<Rightarrow> []
                                                          | Some surname \<Rightarrow>
                                                              if surname = [] then []
                                                              else '' '' @ surname))),
                                  u_imageUrl =
                                    (case cu_imageUrl cu of
                                       None \<Rightarrow> None
                                     | Some url \<Rightarrow> if url = [] then None else Some url),
                                  u_createdAt = now e,
                                  u_updatedAt = now e\<rparr>"
    have run: "upload_user e clerkId file w
               = upload_store e file user
                   (log_effect (DbInsert ''users'') (w\<lparr>users := users w @ [user]\<rparr>))"
      using assms(5) cu addr ne by (simp add: upload_user_def Let_def user_def)
    from upload_store_effects
      [of e "file" user "log_effect (DbInsert ''users'') (w\<lparr>users := users w @ [user]\<rparr>)"]
    obtain rest where
      "users (snd (upload_user e clerkId file w)) = users w @ [user]"
      "trace (snd (upload_user e clerkId file w))
         = trace w @ DbInsert ''users'' # StorageUploadCall (u_id user) (f_name file) # rest"
      unfolding run by (auto simp: log_effect_def)
    moreover have "u_id user = newUserId e" "u_clerkId user = clerkId" "u_email user = email"
      by (simp_all add: user_def)
    ultimately show ?thesis by blast
  qed
  from none some show ?thesis
    unfolding run by blast
qed

theorem upload_first_time_caller_witness:
  "POST_upload carol_env (Inr (Some small_pdf)) office
     = (json_response 400
          [(''error'', JStr ''Unable to retrieve user email from authentication provider.'')],
        office)
   \<and> (\<exists>user rest.
         u_email user = ''carol@example.com''
         \<and> users (snd (POST_upload carol_email_env (Inr (Some small_pdf)) office))
             = users office @ [user]
         \<and> trace (snd (POST_upload carol_email_env (Inr (Some small_pdf)) office))
             = trace office @ DbInsert ''users''
                 # StorageUploadCall (u_id user) (f_name small_pdf) # rest)"
proof -
  have s: "f_size small_pdf \<le> MAX_FILE_SIZE"
    by (simp add: small_pdf_def MAX_FILE_SIZE_def)
  have t: "f_type small_pdf \<in> set ALLOWED_FILE_TYPES"
    by (simp add: small_pdf_def ALLOWED_FILE_TYPES_def)
  have n: "find_user ''clerk_carol'' office = None"
    by (simp add: find_user_def office_def alice_def bob_def)
  have a1: "auth carol_env = Some ''clerk_carol''"
    by (simp add: carol_env_def quiet_env_def)
  have r1: "success (checkRateLimit carol_env ''clerk_carol'' upload)"
    by (simp add: checkRateLimit_def carol_env_def quiet_env_def uploadRateLimiter_def)
  have e1: "provider_email carol_env = None"
    by (simp add: provider_email_def carol_env_def quiet_env_def)
  have a2: "auth carol_email_env = Some ''clerk_carol''"
    by (simp add: carol_email_env_def quiet_env_def)
  have r2: "success (checkRateLimit carol_email_env ''clerk_carol'' upload)"
    by (simp add: checkRateLimit_def carol_email_env_def quiet_env_def uploadRateLimiter_def)
  have e2: "provider_email carol_email_env = Some ''carol@example.com''"
    by (simp add: provider_email_def carol_email_env_def quiet_env_def)
  from upload_first_time_caller [OF a1 r1 s t n] e1
  have first: "POST_upload carol_env (Inr (Some small_pdf)) office
     = (json_response 400
          [(''error'', JStr ''Unable to retrieve user email from authentication provider.'')],
        office)"
    by blast
  from upload_first_time_caller [OF a2 r2 s t n] e2
  have second: "\<exists>user rest.
         u_email user = ''carol@example.com''
         \<and> users (snd (POST_upload carol_email_env (Inr (Some small_pdf)) office))
             = users office @ [user]
         \<and> trace (snd (POST_upload carol_email_env (Inr (Some small_pdf)) office))
             = trace office @ DbInsert ''users''
                 # StorageUploadCall (u_id user) (f_name small_pdf) # rest"
    by blast
  from first second show ?thesis by blast
qed

subsection \<open>Listing and deleting documents\<close>

lemma select_documents_page_subset:
  "select_documents_page e userId lmt offset rows = Inr page
   \<Longrightarrow> set page \<subseteq> {d \<in> set rows. d_userId d = userId}"
proof -
  assume sel: "select_documents_page e userId lmt offset rows = Inr page"
  let ?ordered = "rev (sort_key d_createdAt (filter (\<lambda>d. d_userId d = userId) rows))"
  from sel obtain k n where "page = take n (drop k ?ordered)"
    by (auto simp: select_documents_page_def Let_def
        split: option.splits sum.splits prod.splits if_splits)
  then have "set page \<subseteq> set ?ordered"
    by (metis set_take_subset set_drop_subset subset_trans)
  then show ?thesis by auto
qed

lemma json_id_format: "json_id (format_document e d) = Some (d_id d)"
  by (simp add: json_id_def format_document_def)

lemma listed_documents_cases:
  assumes "item \<in> set (listed_documents (fst (GET_documents e page_param limit_param w)))"
  shows "\<exists>clerkId u d. auth e = Some clerkId \<and> find_user clerkId w = Some u
           \<and> d \<in> set (documents w) \<and> d_userId d = u_id u \<and> item = format_document e d"
proof (cases "auth e")
  case None
  with assms show ?thesis
    by (simp add: GET_documents_def listed_documents_def response_object_def json_response_def)
next
  case (Some clerkId)
  show ?thesis
  proof (cases "find_user clerkId w")
    case None
    with Some assms show ?thesis
      by (simp add: GET_documents_def listed_documents_def response_object_def json_response_def)
  next
    case (Some u)
    let ?lmt = "parseInt (param_or limit_param ''20'')"
    let ?off = "case (parseInt (param_or page_param ''1''), ?lmt) of
                  (Some p, Some l) \<Rightarrow> Some ((p - 1) * l) | _ \<Rightarrow> None"
    show ?thesis
    proof (cases "select_documents_page e (u_id u) ?lmt ?off (documents w)")
      case (Inl err)
      with Some \<open>auth e = Some clerkId\<close> assms show ?thesis
        by (simp add: GET_documents_def listed_documents_def response_object_def
            json_response_def Let_def)
    next
      case (Inr docs)
      with Some \<open>auth e = Some clerkId\<close> assms
      have "item \<in> format_document e ` set docs"
        by (simp add: GET_documents_def listed_documents_def response_object_def
            json_response_def Let_def)
      then obtain d where d: "d \<in> set docs" "item = format_document e d" by blast
      from select_documents_page_subset [OF Inr] d(1)
      have "d \<in> set (documents w)" "d_userId d = u_id u" by auto
      with d(2) Some \<open>auth e = Some clerkId\<close> show ?thesis by blast
    qed
  qed
qed

text \<open>
  C3. For every page and limit, every document in the listing response is the rendering
  of a row of the documents table whose owner is the caller's internal user id; and when
  document ids are unique, no document owned by another user appears in the listing.
\<close>

theorem listing_scoped_to_caller:
  "(\<forall>item \<in> set (listed_documents (fst (GET_documents e page_param limit_param w))).
      \<exists>clerkId u d. auth e = Some clerkId \<and> find_user clerkId w = Some u
         \<and> d \<in> set (documents w) \<and> d_userId d = u_id u \<and> item = format_document e d)
   \<and> (\<forall>clerkId u other.
         auth e = Some clerkId \<and> find_user clerkId w = Some u
         \<and> distinct (map d_id (documents w))
         \<and> other \<in> set (documents w) \<and> d_userId other \<noteq> u_id u
         \<longrightarrow> (\<forall>item \<in> set (listed_documents (fst (GET_documents e page_param limit_param w))).
                json_id item \<noteq> Some (d_id other)))"
proof (intro conjI ballI allI impI)
  fix item
  assume "item \<in> set (listed_documents (fst (GET_documents e page_param limit_param w)))"
  then show "\<exists>clerkId u d. auth e = Some clerkId \<and> find_user clerkId w = Some u
         \<and> d \<in> set (documents w) \<and> d_userId d = u_id u \<and> item = format_document e d"
    by (rule listed_documents_cases)
next
  fix clerkId u other item
  assume h: "auth e = Some clerkId \<and> find_user clerkId w = Some u
         \<and> distinct (map d_id (documents w))
         \<and> other \<in> set (documents w) \<and> d_userId other \<noteq> u_id u"
    and item: "item \<in> set (listed_documents (fst (GET_documents e page_param limit_param w)))"
  from listed_documents_cases [OF item] h
  obtain d where d: "d \<in> set (documents w)" "d_userId d = u_id u" "item = format_document e d"
    by auto
  show "json_id item \<noteq> Some (d_id other)"
  proof
    assume "json_id item = Some (d_id other)"
    with d(3) have "d_id d = d_id other" by (simp add: json_id_format)
    with h d(1) have "d = other"
      by (meson distinct_map inj_onD)
    with d(2) h show False by simp
  qed
qed

lemma parse_defaults: "parseInt ''1'' = Some 1" "parseInt ''20'' = Some 20"
  by (simp_all add: parseInt_def isSpace_def isDigit_def digit_value_def Let_def)

lemma office_listing:
  "listed_documents (fst (GET_documents quiet_env None None office))
     = [format_document quiet_env report_doc]"
  by (simp add: GET_documents_def quiet_env_def office_def find_user_def alice_def bob_def
      param_or_def parse_defaults select_documents_page_def report_doc_def notes_doc_def
      listed_documents_def response_object_def json_response_def Let_def
      alice_id_def bob_id_def)

theorem listing_scoped_to_caller_witness:
  "listed_documents (fst (GET_documents quiet_env None None office))
     = [format_document quiet_env report_doc]
   \<and> d_userId report_doc = u_id alice
   \<and> json_id (format_document quiet_env report_doc) \<noteq> Some (d_id notes_doc)"
proof -
  have h: "auth quiet_env = Some ''clerk_alice'' \<and> find_user ''clerk_alice'' office = Some alice
         \<and> distinct (map d_id (documents office))
         \<and> notes_doc \<in> set (documents office) \<and> d_userId notes_doc \<noteq> u_id alice"
    by (simp add: quiet_env_def find_user_def office_def alice_def bob_def report_doc_def
        notes_doc_def alice_id_def bob_id_def report_id_def notes_id_def)
  have own: "d_userId report_doc = u_id alice"
    by (simp add: report_doc_def alice_def)
  from listing_scoped_to_caller [of quiet_env None None office] h
  have "\<forall>item \<in> set (listed_documents (fst (GET_documents quiet_env None None office))).
          json_id item \<noteq> Some (d_id notes_doc)"
    by blast
  with office_listing own show ?thesis by simp
qed







subsection \<open>The processing webhook\<close>

lemma report_id_nonempty: "report_id \<noteq> []"
  by (simp add: report_id_def)

lemma set_columns_id: "d_id (set_columns u d) = d_id d"
  by (simp add: set_columns_def)

lemma set_columns_twice:
  "ud_status u' = ud_status u \<Longrightarrow> ud_chunkCount u' = ud_chunkCount u
   \<Longrightarrow> ud_errorMessage u' = ud_errorMessage u \<Longrightarrow> ud_updatedAt u' \<noteq> None
   \<Longrightarrow> set_columns u' (set_columns u d)
       = (set_columns u d)\<lparr>d_updatedAt := (case ud_updatedAt u' of Some t \<Rightarrow> t | None \<Rightarrow> 0)\<rparr>"
  by (cases d) (auto simp: set_columns_def split: option.splits)

text \<open>
  C7, up to the timestamp. For every document table and every status-update payload,
  applying the same update twice in succession leaves every document row as one
  application leaves it, except for the \<open>updatedAt\<close> column, which each application
  sets to its own clock reading; when the clock reads the same both times the rows are
  identical.
\<close>

theorem webhook_idempotent_up_to_updatedAt:
  "map without_updatedAt
     (documents (snd (POST_process (e\<lparr>now := t\<rparr>) authHeader request_json
                        (snd (POST_process e authHeader request_json w)))))
   = map without_updatedAt (documents (snd (POST_process e authHeader request_json w)))
   \<and> (t = now e
        \<longrightarrow> documents (snd (POST_process (e\<lparr>now := t\<rparr>) authHeader request_json
                               (snd (POST_process e authHeader request_json w))))
            = documents (snd (POST_process e authHeader request_json w)))"
proof (cases "truthy (WORKER_SECRET e) \<and> authHeader \<noteq> WORKER_SECRET e")
  case True
  then show ?thesis by (simp add: POST_process_def)
next
  case auth_ok: False
  show ?thesis
  proof (cases request_json)
    case (Inl err)
    with auth_ok show ?thesis by (simp add: POST_process_def)
  next
    case (Inr b)
    show ?thesis
    proof (cases "\<not> truthy (document_id b)
                  \<or> (truthy (new_status b)
                      \<and> (case new_status b of None \<Rightarrow> False | Some s \<Rightarrow> s \<notin> set validStatuses))
                  \<or> (case document_id b of None \<Rightarrow> False | Some i \<Rightarrow> \<not> accepts_uuid e i)
                  \<or> (case chunk_count b of
                        None \<Rightarrow> False
                      | Some n \<Rightarrow> n < - 2147483648 \<or> 2147483647 < n)")
      case True
      with auth_ok Inr have "snd (POST_process e authHeader request_json w) = w"
        and "snd (POST_process (e\<lparr>now := t\<rparr>) authHeader request_json w) = w"
        by (auto simp: POST_process_def split: option.splits)
      then show ?thesis by simp
    next
      case False
      let ?u = "\<lambda>clock. \<lparr>ud_status = (if truthy (new_status b) then new_status b else None),
                          ud_chunkCount = chunk_count b,
                          ud_errorMessage =
                            (if truthy (error_message b) then error_message b else None),
                          ud_updatedAt = Some clock\<rparr>"
      let ?f = "\<lambda>clock d. if Some (d_id d) = document_id b then set_columns (?u clock) d else d"
      have once: "documents (snd (POST_process e authHeader request_json w))
                  = map (?f (now e)) (documents w)"
        using auth_ok Inr False
        by (auto simp: POST_process_def Let_def log_effect_def split: option.splits)
      have twice: "documents (snd (POST_process (e\<lparr>now := t\<rparr>) authHeader request_json
                        (snd (POST_process e authHeader request_json w))))
                  = map (?f t) (map (?f (now e)) (documents w))"
        using auth_ok Inr False
        by (auto simp: POST_process_def Let_def log_effect_def split: option.splits)
      have step: "?f t (?f (now e) d) = (?f (now e) d)\<lparr>d_updatedAt :=
                      (if Some (d_id d) = document_id b then t else d_updatedAt d)\<rparr>" for d
        by (simp add: set_columns_id set_columns_twice)
      have a: "without_updatedAt (?f t (?f (now e) d)) = without_updatedAt (?f (now e) d)" for d
        unfolding step by (simp add: without_updatedAt_def)
      have b: "t = now e \<Longrightarrow> ?f t (?f (now e) d) = ?f (now e) d" for d
        unfolding step by (simp add: set_columns_def)
      from a b show ?thesis
        unfolding once twice by (simp add: comp_def)
    qed
  qed
qed

theorem webhook_idempotent_witness:
  "map without_updatedAt
     (documents (snd (POST_process later_env None (Inr ready_update)
                        (snd (POST_process quiet_env None (Inr ready_update) office)))))
   = map without_updatedAt (documents (snd (POST_process quiet_env None (Inr ready_update) office)))
   \<and> map d_status (documents (snd (POST_process quiet_env None (Inr ready_update) office)))
       = [''ready'', ''ready'']
   \<and> documents (snd (POST_process quiet_env None (Inr ready_update)
                        (snd (POST_process quiet_env None (Inr ready_update) office))))
       = documents (snd (POST_process quiet_env None (Inr ready_update) office))"
proof -
  have l: "later_env = quiet_env\<lparr>now := 2000\<rparr>"
    by (simp add: later_env_def)
  have st: "map d_status (documents (snd (POST_process quiet_env None (Inr ready_update) office)))
       = [''ready'', ''ready'']"
    by (simp add: POST_process_def quiet_env_def ready_update_def office_def
      truthy_def validStatuses_def set_columns_def log_effect_def report_doc_def notes_doc_def
      Let_def report_id_accepted report_id_nonempty)
  from webhook_idempotent_up_to_updatedAt
      [where e = quiet_env and t = 2000 and authHeader = None
         and request_json = "Inr ready_update" and w = office]
    webhook_idempotent_up_to_updatedAt
      [where e = quiet_env and t = "now quiet_env" and authHeader = None
         and request_json = "Inr ready_update" and w = office]
  show ?thesis
    unfolding l using st by simp
qed

text \<open>
  The rows themselves differ when the clock has advanced between the two applications.
\<close>

theorem webhook_updatedAt_counterexample:
  "documents (snd (POST_process later_env None (Inr ready_update)
                     (snd (POST_process quiet_env None (Inr ready_update) office))))
   \<noteq> documents (snd (POST_process quiet_env None (Inr ready_update) office))"
  by (simp add: POST_process_def later_env_def quiet_env_def ready_update_def office_def
      truthy_def validStatuses_def set_columns_def log_effect_def report_doc_def notes_doc_def
      Let_def report_id_accepted report_id_nonempty)

end
